theory Spec2Isabelle
  imports Main "HOL-Library.Word" "HOL-Library.Multiset"
begin

unbundle bit_operations_syntax

section \<open>The C and C++ library routines the simulator calls\<close>

text \<open>
  The simulator (\<^verbatim>\<open>RouterSimulator.cpp\<close>) reads its numbers with \<^verbatim>\<open>sscanf\<close>,
  \<^verbatim>\<open>std::stoi\<close> and the stream extractor \<^verbatim>\<open>operator>>\<close>. All three accept the
  subject sequence of \<^verbatim>\<open>strtol\<close> in base 10: white space, an optional sign, and at
  least one decimal digit; whatever follows the digits is left unread.
  Strings are byte strings; the C routines stop at the first NUL byte.
\<close>

definition isspace :: "char \<Rightarrow> bool" where
  "isspace c \<longleftrightarrow> c = CHR '' '' \<or> (9::nat) \<le> of_char c \<and> of_char c \<le> (13::nat)"

definition isdigit :: "char \<Rightarrow> bool" where
  "isdigit c \<longleftrightarrow> (48::nat) \<le> of_char c \<and> of_char c \<le> (57::nat)"

definition c_str :: "string \<Rightarrow> string" where
  "c_str s = takeWhile (\<lambda>c. of_char c \<noteq> (0::nat)) s"

fun digits_value :: "nat \<Rightarrow> string \<Rightarrow> nat" where
  "digits_value acc [] = acc"
| "digits_value acc (c # cs) = digits_value (10 * acc + (of_char c - 48)) cs"

text \<open>
  \<open>scan_decimal s\<close> is the integer read at the front of \<open>s\<close> together with the unread
  rest, or \<open>None\<close> when no integer stands there. The value is the mathematical one; each
  caller applies its own rule for a value that is not an \<^verbatim>\<open>int\<close>: \<^verbatim>\<open>sscanf\<close> stores
  what \<open>scanf_d\<close> says, \<^verbatim>\<open>std::stoi\<close> throws, and the stream extractor fails.
\<close>

definition scan_decimal :: "string \<Rightarrow> (int \<times> string) option" where
  "scan_decimal s =
     (let s1 = dropWhile isspace s;
          neg = (case s1 of [] \<Rightarrow> False | c # _ \<Rightarrow> c = CHR ''-'');
          s2 = (case s1 of [] \<Rightarrow> [] | c # r \<Rightarrow> if c = CHR ''-'' \<or> c = CHR ''+'' then r else s1);
          ds = takeWhile isdigit s2
      in if ds = [] then None
         else Some (if neg then - int (digits_value 0 ds) else int (digits_value 0 ds),
                    dropWhile isdigit s2))"

definition INT_MIN :: int where "INT_MIN = - (2 ^ 31)"
definition INT_MAX :: int where "INT_MAX = 2 ^ 31 - 1"

definition LONG_MIN :: int where "LONG_MIN = - (2 ^ 63)"
definition LONG_MAX :: int where "LONG_MAX = 2 ^ 63 - 1"

text \<open>
  The \<^verbatim>\<open>int\<close> that \<^verbatim>\<open>%d\<close> of \<^verbatim>\<open>sscanf\<close> stores for a field of the value \<open>v\<close>. A
  value that is an \<^verbatim>\<open>int\<close> is stored as it is. Beyond that the C standard leaves the
  result open; the GNU C library, with a \<^verbatim>\<open>long\<close> of 64 bits, converts the field with
  \<^verbatim>\<open>strtol\<close>, which stops at \<^verbatim>\<open>LONG_MIN\<close> and \<^verbatim>\<open>LONG_MAX\<close>, and stores the low 32
  bits of that \<^verbatim>\<open>long\<close>.
\<close>

definition scanf_d :: "int \<Rightarrow> int" where
  "scanf_d v = sint (word_of_int (max LONG_MIN (min LONG_MAX v)) :: 32 word)"

text \<open>
  \<^verbatim>\<open>sscanf(s, "%d.%d.%d.%d", ...)\<close>: the list of the \<^verbatim>\<open>int\<close>s stored before the first
  matching failure (its length is the number \<^verbatim>\<open>sscanf\<close> returns when that is not
  \<^verbatim>\<open>EOF\<close>). A literal \<^verbatim>\<open>.\<close> of the format matches exactly one \<^verbatim>\<open>.\<close>; \<^verbatim>\<open>%d\<close>
  skips white space first. The first argument counts the conversions still to do.
\<close>

fun sscanf_dotted :: "nat \<Rightarrow> string \<Rightarrow> int list" where
  "sscanf_dotted 0 s = []"
| "sscanf_dotted (Suc n) s =
     (case scan_decimal s of
        None \<Rightarrow> []
      | Some (v, rest) \<Rightarrow>
          scanf_d v # (if n = 0 then []
                       else (case rest of
                               [] \<Rightarrow> []
                             | c # r \<Rightarrow> if c = CHR ''.'' then sscanf_dotted n r else [])))"

text \<open>
  The exceptions of the program, by the place that throws them. All are
  \<^verbatim>\<open>std::exception\<close>s, which \<^verbatim>\<open>RouterCLI::run\<close> catches and reports.
\<close>

datatype error =
    ParseError string      \<comment> \<open>\<^verbatim>\<open>invalid_argument\<close> of \<^verbatim>\<open>ipToUint\<close>, with the offending text\<close>
  | InvalidPrefixError     \<comment> \<open>\<^verbatim>\<open>invalid_argument\<close> of \<^verbatim>\<open>maskFromPrefix\<close>\<close>
  | StoiInvalidArgument    \<comment> \<open>\<^verbatim>\<open>invalid_argument\<close> of \<^verbatim>\<open>std::stoi\<close>: no digits\<close>
  | StoiOutOfRange         \<comment> \<open>\<^verbatim>\<open>out_of_range\<close> of \<^verbatim>\<open>std::stoi\<close>: not an \<^verbatim>\<open>int\<close>\<close>

definition stoi :: "string \<Rightarrow> error + int" where
  "stoi str =
     (case scan_decimal (c_str str) of
        None \<Rightarrow> Inl StoiInvalidArgument
      | Some (v, _) \<Rightarrow> if v < INT_MIN \<or> INT_MAX < v then Inl StoiOutOfRange else Inr v)"

text \<open>Stream output of an unsigned and of a signed integer: decimal, no padding.\<close>

fun show_nat :: "nat \<Rightarrow> string" where
  "show_nat n = (if n < 10 then [char_of (48 + n)] else show_nat (n div 10) @ [char_of (48 + n mod 10)])"

declare show_nat.simps [simp del]

definition show_int :: "int \<Rightarrow> string" where
  "show_int i = (if i < 0 then CHR ''-'' # show_nat (nat (- i)) else show_nat (nat i))"

section \<open>The sorting routine of the C++ library\<close>



































section \<open>Utilities\<close>

type_synonym uint32 = "32 word"

text \<open>
  \<^verbatim>\<open>ipToUint\<close>. The four parts are the C \<^verbatim>\<open>int\<close>s that \<^verbatim>\<open>sscanf\<close> stored, shifted and
  or-ed as \<^verbatim>\<open>int\<close>s and converted to \<^verbatim>\<open>uint32_t\<close>; the model computes in 32-bit two's
  complement, where the shifts wrap around (the rule of C++20, and what the compilers
  do before it). No range check on the parts stands in the source.
\<close>

definition ipToUint :: "string \<Rightarrow> error + uint32" where
  "ipToUint ip =
     (case sscanf_dotted 4 (c_str ip) of
        [p0, p1, p2, p3] \<Rightarrow>
          Inr (push_bit 24 (word_of_int p0) OR push_bit 16 (word_of_int p1)
               OR push_bit 8 (word_of_int p2) OR word_of_int p3)
      | _ \<Rightarrow> Inl (ParseError ip))"

definition maskFromPrefix :: "int \<Rightarrow> error + uint32" where
  "maskFromPrefix prefix =
     (if prefix < 0 \<or> prefix > 32 then Inl InvalidPrefixError
      else Inr (if prefix = 0 then 0 else push_bit (nat (32 - prefix)) 0xFFFFFFFF))"

section \<open>IPAddress\<close>

record IPAddress =
  addr :: uint32
  prefix :: int

definition find_char :: "char \<Rightarrow> string \<Rightarrow> nat option" where
  "find_char c s = (if c \<in> set s then Some (length (takeWhile (\<lambda>x. x \<noteq> c) s)) else None)"

text \<open>
  The constructor from CIDR text. \<^verbatim>\<open>std::stoi\<close> runs first; of the two operands of
  \<^verbatim>\<open>&\<close> the model evaluates the left one first (C++ leaves the order open, and it
  matters only for which of two exceptions is thrown when both operands throw).
\<close>

definition IPAddress_ctor :: "string \<Rightarrow> error + IPAddress" where
  "IPAddress_ctor cidr =
     (let slash = find_char CHR ''/'' cidr;
          ip = (case slash of None \<Rightarrow> cidr | Some i \<Rightarrow> take i cidr)
      in case (case slash of None \<Rightarrow> Inr 32 | Some i \<Rightarrow> stoi (drop (i + 1) cidr)) of
           Inl e \<Rightarrow> Inl e
         | Inr p \<Rightarrow>
             (case ipToUint ip of
                Inl e \<Rightarrow> Inl e
              | Inr raw \<Rightarrow>
                  (case maskFromPrefix p of
                     Inl e \<Rightarrow> Inl e
                   | Inr m \<Rightarrow> Inr \<lparr>addr = raw AND m, prefix = p\<rparr>)))"

definition IPAddress_matches :: "IPAddress \<Rightarrow> IPAddress \<Rightarrow> error + bool" where
  "IPAddress_matches self other =
     (case maskFromPrefix (prefix self) of
        Inl e \<Rightarrow> Inl e
      | Inr m \<Rightarrow> Inr ((addr other AND m) = addr self))"

abbreviation getPrefix :: "IPAddress \<Rightarrow> int" where
  "getPrefix self \<equiv> prefix self"

definition IPAddress_toString :: "IPAddress \<Rightarrow> string" where
  "IPAddress_toString self =
     show_nat (unat (drop_bit 24 (addr self) AND 0xFF)) @ ''.'' @
     show_nat (unat (drop_bit 16 (addr self) AND 0xFF)) @ ''.'' @
     show_nat (unat (drop_bit 8 (addr self) AND 0xFF)) @ ''.'' @
     show_nat (unat (addr self AND 0xFF)) @ ''/'' @ show_int (prefix self)"

definition IPAddress_eq :: "IPAddress \<Rightarrow> IPAddress \<Rightarrow> bool" where
  "IPAddress_eq self other \<longleftrightarrow> addr self = addr other \<and> prefix self = prefix other"

section \<open>Route\<close>

record Route =
  network :: IPAddress
  gateway :: IPAddress
  metric :: int

abbreviation getNetwork :: "Route \<Rightarrow> IPAddress" where
  "getNetwork r \<equiv> network r"

abbreviation getGateway :: "Route \<Rightarrow> IPAddress" where
  "getGateway r \<equiv> gateway r"

abbreviation getMetric :: "Route \<Rightarrow> int" where
  "getMetric r \<equiv> metric r"

definition Route_matches :: "Route \<Rightarrow> IPAddress \<Rightarrow> error + bool" where
  "Route_matches r a = IPAddress_matches (network r) a"

definition Route_toString :: "Route \<Rightarrow> string" where
  "Route_toString r =
     ''Sie'' @ [CHR 0xC4, CHR 0x87] @ '': '' @ IPAddress_toString (network r) @
     '', Brama: '' @ IPAddress_toString (gateway r) @
     '', Metryka: '' @ show_int (metric r)"

section \<open>RoutingTable\<close>

text \<open>The class has one field, the vector \<^verbatim>\<open>routes\<close>: a table is that list.\<close>

definition addRoute :: "Route \<Rightarrow> Route list \<Rightarrow> Route list" where
  "addRoute r routes = routes @ [r]"

text \<open>
  \<^verbatim>\<open>removeRoute\<close>: \<^verbatim>\<open>std::remove_if\<close> moves the routes to keep to the front, in
  their order, and returns the end \<open>it\<close> of that range; \<^verbatim>\<open>erase\<close> cuts the vector
  there, so that \<open>kept\<close> is the vector after the call on both branches. The result is
  that vector and the text written to \<^verbatim>\<open>cout\<close>.
\<close>

definition removeRoute :: "IPAddress \<Rightarrow> Route list \<Rightarrow> Route list \<times> string" where
  "removeRoute net routes =
     (let kept = filter (\<lambda>r. \<not> IPAddress_eq (getNetwork r) net) routes;
          it = length kept
      in if it \<noteq> length routes
         then (kept,
               ''Trasa zosta'' @ [CHR 0xC5, CHR 0x82] @ ''a usuni'' @ [CHR 0xC4, CHR 0x99] @ ''ta.'' @ [CHR 0x0A])
         else (kept, ''Nie znaleziono podanej trasy.'' @ [CHR 0x0A]))"

text \<open>\<^verbatim>\<open>findRoute\<close>: the loop over \<^verbatim>\<open>routes\<close>, with the variable \<^verbatim>\<open>best\<close>.\<close>

fun findRoute_loop :: "Route list \<Rightarrow> IPAddress \<Rightarrow> Route option \<Rightarrow> error + Route option" where
  "findRoute_loop [] a best = Inr best"
| "findRoute_loop (r # rs) a best =
     (case Route_matches r a of
        Inl e \<Rightarrow> Inl e
      | Inr m \<Rightarrow>
          findRoute_loop rs a
            (if m then
               (case best of
                  None \<Rightarrow> Some r
                | Some b \<Rightarrow>
                    if getPrefix (getNetwork r) > getPrefix (getNetwork b) then Some r else best)
             else best))"

definition findRoute :: "Route list \<Rightarrow> IPAddress \<Rightarrow> error + Route option" where
  "findRoute routes a = findRoute_loop routes a None"

text \<open>
  \<^verbatim>\<open>print\<close> sorts a copy of the vector with \<^verbatim>\<open>std::sort\<close>, which is not part of the
  program: it is the parameter \<open>srt\<close>, taking the comparison and the vector to the
  sorted vector. What C++ promises of it is \<open>sort_post\<close>: the result is a permutation
  of the input in which no element compares less than an earlier one. The order of
  elements that compare equal is left open (only \<^verbatim>\<open>std::stable_sort\<close> fixes it).
  In a program built with the GNU library \<open>srt\<close> is \<open>gnu_sort\<close>.
  The result is the text written to \<^verbatim>\<open>cout\<close>; the vector \<^verbatim>\<open>routes\<close> is only read.
\<close>

type_synonym std_sort = "(Route \<Rightarrow> Route \<Rightarrow> bool) \<Rightarrow> Route list \<Rightarrow> Route list"


definition print :: "std_sort \<Rightarrow> Route list \<Rightarrow> string" where
  "print srt routes =
     (if routes = [] then ''Tablica routingu jest pusta.'' @ [CHR 0x0A]
      else
        (let sorted = srt (\<lambda>a b. getMetric a < getMetric b) routes
         in ''Aktualna tablica routingu:'' @ [CHR 0x0A] @
            concat (map (\<lambda>r. ''  '' @ Route_toString r @ [CHR 0x0A]) sorted)))"

section \<open>Packet\<close>

record Packet =
  source :: IPAddress
  destination :: IPAddress
  protocol :: string

abbreviation getDestination :: "Packet \<Rightarrow> IPAddress" where
  "getDestination p \<equiv> destination p"

definition Packet_toString :: "Packet \<Rightarrow> string" where
  "Packet_toString p =
     ''Pakiet od '' @ IPAddress_toString (source p) @
     '' do '' @ IPAddress_toString (destination p) @
     '' ['' @ protocol p @ '']''"

section \<open>RouterCLI\<close>

text \<open>
  The state of the command loop: the routing table, the text appended to the log
  file \<^verbatim>\<open>router.log\<close>, and the text written to \<^verbatim>\<open>cout\<close>.
\<close>

record RouterCLI =
  table :: "Route list"
  log :: string
  cout :: string

text \<open>
  The stream extractors on the rest of the command line: \<^verbatim>\<open>ss >> word\<close> skips white
  space and takes the characters up to the next white space, failing when there are
  none; \<^verbatim>\<open>ss >> m\<close> for an \<^verbatim>\<open>int\<close> fails when no integer stands there or when it is
  not an \<^verbatim>\<open>int\<close>. Each gives the value and the unread rest of the stream.
\<close>

definition extract_string :: "string \<Rightarrow> (string \<times> string) option" where
  "extract_string ss =
     (let s1 = dropWhile isspace ss;
          w = takeWhile (\<lambda>c. \<not> isspace c) s1
      in if w = [] then None else Some (w, dropWhile (\<lambda>c. \<not> isspace c) s1))"

definition extract_int :: "string \<Rightarrow> (int \<times> string) option" where
  "extract_int ss =
     (case scan_decimal ss of
        None \<Rightarrow> None
      | Some (v, rest) \<Rightarrow> if v < INT_MIN \<or> INT_MAX < v then None else Some (v, rest))"

text \<open>
  A handler gives the state it leaves and, when it throws, the exception; the state is
  the one at the throw.
\<close>

definition handleAdd :: "string \<Rightarrow> RouterCLI \<Rightarrow> RouterCLI \<times> error option" where
  "handleAdd ss s =
     (case (case extract_string ss of
              None \<Rightarrow> None
            | Some (net, ss1) \<Rightarrow>
                (case extract_string ss1 of
                   None \<Rightarrow> None
                 | Some (gw, ss2) \<Rightarrow>
                     (case extract_int ss2 of
                        None \<Rightarrow> None
                      | Some (m, _) \<Rightarrow> Some (net, gw, m)))) of
        None \<Rightarrow>
          (s\<lparr>cout := cout s @ ''U'' @ [CHR 0xC5, CHR 0xBC] @ ''ycie: add <sie'' @ [CHR 0xC4, CHR 0x87] @
                       ''> <brama> <metryka>'' @ [CHR 0x0A]\<rparr>, None)
      | Some (net, gw, m) \<Rightarrow>
          (case IPAddress_ctor net of
             Inl e \<Rightarrow> (s, Some e)
           | Inr n \<Rightarrow>
               (case IPAddress_ctor gw of
                  Inl e \<Rightarrow> (s, Some e)
                | Inr g \<Rightarrow>
                    (s\<lparr>table := addRoute \<lparr>network = n, gateway = g, metric = m\<rparr> (table s),
                       cout := cout s @ ''Dodano tras'' @ [CHR 0xC4, CHR 0x99] @ ''.'' @ [CHR 0x0A],
                       log := log s @ ''ADD '' @ net @ '' przez '' @ gw @ '' metryka '' @
                                show_int m @ [CHR 0x0A]\<rparr>, None))))"

definition handleDelete :: "string \<Rightarrow> RouterCLI \<Rightarrow> RouterCLI \<times> error option" where
  "handleDelete ss s =
     (case extract_string ss of
        None \<Rightarrow>
          (s\<lparr>cout := cout s @ ''U'' @ [CHR 0xC5, CHR 0xBC] @ ''ycie: del <sie'' @ [CHR 0xC4, CHR 0x87] @
                       ''>'' @ [CHR 0x0A]\<rparr>, None)
      | Some (net, _) \<Rightarrow>
          (case IPAddress_ctor net of
             Inl e \<Rightarrow> (s, Some e)
           | Inr n \<Rightarrow>
               (let (routes', msg) = removeRoute n (table s)
                in (s\<lparr>table := routes', cout := cout s @ msg,
                      log := log s @ ''DEL '' @ net @ [CHR 0x0A]\<rparr>, None))))"

definition handleSend :: "string \<Rightarrow> RouterCLI \<Rightarrow> RouterCLI \<times> error option" where
  "handleSend ss s =
     (case (case extract_string ss of
              None \<Rightarrow> None
            | Some (src, ss1) \<Rightarrow>
                (case extract_string ss1 of
                   None \<Rightarrow> None
                 | Some (dst, ss2) \<Rightarrow>
                     (case extract_string ss2 of
                        None \<Rightarrow> None
                      | Some (proto, _) \<Rightarrow> Some (src, dst, proto)))) of
        None \<Rightarrow>
          (s\<lparr>cout := cout s @ ''U'' @ [CHR 0xC5, CHR 0xBC] @ ''ycie: send <'' @ [CHR 0xC5, CHR 0xBA] @ ''r'' @
                       [CHR 0xC3, CHR 0xB3] @ ''d'' @ [CHR 0xC5, CHR 0x82] @ ''o> <cel> <protok'' @
                       [CHR 0xC3, CHR 0xB3, CHR 0xC5, CHR 0x82] @ ''>'' @ [CHR 0x0A]\<rparr>, None)
      | Some (src, dst, proto) \<Rightarrow>
          (case IPAddress_ctor src of
             Inl e \<Rightarrow> (s, Some e)
           | Inr sa \<Rightarrow>
               (case IPAddress_ctor dst of
                  Inl e \<Rightarrow> (s, Some e)
                | Inr da \<Rightarrow>
                    (let pkt = \<lparr>source = sa, destination = da, protocol = proto\<rparr>;
                         s1 = s\<lparr>cout := cout s @ Packet_toString pkt @ [CHR 0x0A]\<rparr>
                     in case findRoute (table s1) (getDestination pkt) of
                          Inl e \<Rightarrow> (s1, Some e)
                        | Inr (Some r) \<Rightarrow>
                            (s1\<lparr>cout := cout s1 @ ''Przekazuj'' @ [CHR 0xC4, CHR 0x99] @
                                           '' pakiet przez bram'' @ [CHR 0xC4, CHR 0x99] @ '': '' @
                                           IPAddress_toString (getGateway r) @ [CHR 0x0A],
                                log := log s1 @ ''FWD '' @ Packet_toString pkt @ '' przez '' @
                                         IPAddress_toString (getGateway r) @ [CHR 0x0A]\<rparr>, None)
                        | Inr None \<Rightarrow>
                            (s1\<lparr>cout := cout s1 @ ''Pakiet zosta'' @ [CHR 0xC5, CHR 0x82] @
                                           '' odrzucony (brak odpowiedniej trasy).'' @ [CHR 0x0A],
                                log := log s1 @ ''DROP '' @ Packet_toString pkt @ [CHR 0x0A]\<rparr>,
                             None)))))"

text \<open>\<^verbatim>\<open>what()\<close> of an exception, as \<^verbatim>\<open>cout\<close> prints it: a C string.\<close>

definition what :: "error \<Rightarrow> string" where
  "what e =
     (case e of
        ParseError ip \<Rightarrow>
          c_str (''Nieprawid'' @ [CHR 0xC5, CHR 0x82] @ ''owy format adresu IP: '' @ ip @
                 ''. Poprawny przyk'' @ [CHR 0xC5, CHR 0x82] @ ''ad: 192.168.0.1'')
      | InvalidPrefixError \<Rightarrow>
          ''Nieprawid'' @ [CHR 0xC5, CHR 0x82] @ ''owa d'' @ [CHR 0xC5, CHR 0x82] @ ''ugo'' @
          [CHR 0xC5, CHR 0x9B, CHR 0xC4, CHR 0x87] @ '' prefiksu. Dozwolony zakres: 0-32.''
      | StoiInvalidArgument \<Rightarrow> ''stoi''
      | StoiOutOfRange \<Rightarrow> ''stoi'')"

definition printHelp :: "RouterCLI \<Rightarrow> RouterCLI" where
  "printHelp s =
     s\<lparr>cout := cout s @
        ''=== Symulator Routera IP ==='' @ [CHR 0x0A] @
        ''Dost'' @ [CHR 0xC4, CHR 0x99] @ ''pne polecenia:'' @ [CHR 0x0A] @
        ''  add <sie'' @ [CHR 0xC4, CHR 0x87] @ ''> <brama> <metryka>  - dodaje tras'' @ [CHR 0xC4, CHR 0x99] @
          '' (np. add 192.168.1.0/24 192.168.1.1 10)'' @ [CHR 0x0A] @
        ''  del <sie'' @ [CHR 0xC4, CHR 0x87] @ ''>                    - usuwa tras'' @ [CHR 0xC4, CHR 0x99] @
          '' (np. del 192.168.1.0/24)'' @ [CHR 0x0A] @
        ''  show                          - pokazuje tablic'' @ [CHR 0xC4, CHR 0x99] @ '' routingu'' @
          [CHR 0x0A] @
        ''  send <'' @ [CHR 0xC5, CHR 0xBA] @ ''r'' @ [CHR 0xC3, CHR 0xB3] @ ''d'' @ [CHR 0xC5, CHR 0x82] @
          ''o> <cel> <prot>    - wysy'' @ [CHR 0xC5, CHR 0x82] @
          ''a pakiet (np. send 10.0.0.1 192.168.1.100 ICMP)'' @ [CHR 0x0A] @
        ''  help                          - pokazuje t'' @ [CHR 0xC4, CHR 0x99] @ '' pomoc'' @ [CHR 0x0A] @
        ''  exit                          - ko'' @ [CHR 0xC5, CHR 0x84] @ ''czy program'' @ [CHR 0x0A]\<rparr>"

text \<open>
  The body of the loop of \<^verbatim>\<open>run\<close> for one line \<open>cmd\<close> that is not \<^verbatim>\<open>exit\<close>: the
  first word selects the handler, and the \<^verbatim>\<open>catch\<close> reports an exception on
  \<^verbatim>\<open>cout\<close>, from the state the handler left at the throw.
\<close>

definition op_of :: "string \<Rightarrow> string" where
  "op_of cmd = (case extract_string cmd of None \<Rightarrow> [] | Some (w, _) \<Rightarrow> w)"

definition args_of :: "string \<Rightarrow> string" where
  "args_of cmd = (case extract_string cmd of None \<Rightarrow> [] | Some (_, ss) \<Rightarrow> ss)"

definition try_catch :: "RouterCLI \<times> error option \<Rightarrow> RouterCLI" where
  "try_catch r =
     (case r of
        (s, None) \<Rightarrow> s
      | (s, Some e) \<Rightarrow>
          s\<lparr>cout := cout s @ ''B'' @ [CHR 0xC5, CHR 0x82, CHR 0xC4, CHR 0x85] @ ''d: '' @ what e @
                      [CHR 0x0A]\<rparr>)"

definition exec_line :: "std_sort \<Rightarrow> string \<Rightarrow> RouterCLI \<Rightarrow> RouterCLI" where
  "exec_line srt cmd s =
     (let op = op_of cmd; ss = args_of cmd
      in if op = ''add'' then try_catch (handleAdd ss s)
         else if op = ''del'' then try_catch (handleDelete ss s)
         else if op = ''show'' then s\<lparr>cout := cout s @ print srt (table s)\<rparr>
         else if op = ''send'' then try_catch (handleSend ss s)
         else if op = ''help'' then printHelp s
         else s\<lparr>cout := cout s @ ''Nieznane polecenie. Wpisz '' @ [CHR 0x27] @ ''help'' @ [CHR 0x27] @
                      '' aby zobaczy'' @ [CHR 0xC4, CHR 0x87] @ '' dost'' @ [CHR 0xC4, CHR 0x99] @
                      ''pne komendy.'' @ [CHR 0x0A]\<rparr>)"

text \<open>
  \<^verbatim>\<open>run\<close> on the lines of the standard input: the prompt, then the line; the loop
  ends at \<^verbatim>\<open>exit\<close> or when the input ends.
\<close>

fun run_loop :: "std_sort \<Rightarrow> string list \<Rightarrow> RouterCLI \<Rightarrow> RouterCLI" where
  "run_loop srt [] s = s\<lparr>cout := cout s @ [CHR 0x0A] @ ''> ''\<rparr>"
| "run_loop srt (cmd # rest) s =
     (let s1 = s\<lparr>cout := cout s @ [CHR 0x0A] @ ''> ''\<rparr>
      in if op_of cmd = ''exit'' then s1 else run_loop srt rest (exec_line srt cmd s1))"

definition run :: "std_sort \<Rightarrow> string list \<Rightarrow> RouterCLI" where
  "run srt stdin = run_loop srt stdin (printHelp \<lparr>table = [], log = [], cout = []\<rparr>)"

section \<open>Well-formed addresses\<close>

text \<open>
  The only constructor of \<^verbatim>\<open>IPAddress\<close> stores a prefix length for which
  \<^verbatim>\<open>maskFromPrefix\<close> returned: \<open>prefix_ok\<close>. Its stored value is masked:
  \<open>IPAddress_inv\<close>.
\<close>

definition prefix_ok :: "IPAddress \<Rightarrow> bool" where
  "prefix_ok a \<longleftrightarrow> 0 \<le> prefix a \<and> prefix a \<le> 32"

definition IPAddress_inv :: "IPAddress \<Rightarrow> bool" where
  "IPAddress_inv a =
     (case maskFromPrefix (prefix a) of Inl _ \<Rightarrow> False | Inr m \<Rightarrow> addr a AND m = addr a)"

text \<open>The table invariant: the addresses of every route are masked.\<close>

definition table_inv :: "Route list \<Rightarrow> bool" where
  "table_inv routes = list_all (\<lambda>r. IPAddress_inv (network r) \<and> IPAddress_inv (gateway r)) routes"

text \<open>The characters of a dotted quad of decimal numbers.\<close>

definition quad_chars :: "string \<Rightarrow> bool" where
  "quad_chars s \<longleftrightarrow> (\<forall>c\<in>set s. isdigit c \<or> c = CHR ''.'')"

section \<open>The network mask and containment\<close>

lemma maskFromPrefix_eq:
  assumes "0 \<le> p" and "p \<le> 32"
  shows "maskFromPrefix p = Inr (NOT (mask (nat (32 - p))))"
proof (cases "p = 0")
  case True
  have "NOT (mask 32 :: uint32) = 0"
    by (rule bit_word_eqI) (simp add: bit_simps)
  with True show ?thesis
    by (simp add: maskFromPrefix_def)
next
  case False
  have ones: "(0xFFFFFFFF :: uint32) = - 1"
    by simp
  from False assms show ?thesis
    unfolding maskFromPrefix_def ones by (simp add: push_bit_minus_one_eq_not_mask)
qed

lemma maskFromPrefix_Inr_iff:
  "maskFromPrefix p = Inr m \<longleftrightarrow> 0 \<le> p \<and> p \<le> 32 \<and> m = NOT (mask (nat (32 - p)))"
proof (cases "0 \<le> p \<and> p \<le> 32")
  case True
  then show ?thesis
    using maskFromPrefix_eq [of p] by auto
next
  case False
  then show ?thesis
    by (auto simp: maskFromPrefix_def)
qed

lemma IPAddress_matches_eq:
  "prefix_ok self \<Longrightarrow>
   IPAddress_matches self other =
     Inr (addr other AND NOT (mask (nat (32 - prefix self))) = addr self)"
  by (simp add: IPAddress_matches_def prefix_ok_def maskFromPrefix_eq)

lemma IPAddress_inv_iff:
  "IPAddress_inv a \<longleftrightarrow>
     prefix_ok a \<and> addr a AND NOT (mask (nat (32 - prefix a))) = addr a"
proof (cases "prefix_ok a")
  case True
  then show ?thesis
    by (simp add: IPAddress_inv_def prefix_ok_def maskFromPrefix_eq)
next
  case False
  then have "maskFromPrefix (prefix a) = Inl InvalidPrefixError"
    by (auto simp: maskFromPrefix_def prefix_ok_def)
  with False show ?thesis
    by (simp add: IPAddress_inv_def)
qed

lemma IPAddress_ctor_inv:
  assumes "IPAddress_ctor cidr = Inr a"
  shows "IPAddress_inv a"
proof -
  from assms obtain raw m p where m: "maskFromPrefix p = Inr m"
    and a: "a = \<lparr>addr = raw AND m, prefix = p\<rparr>"
    by (auto simp: IPAddress_ctor_def Let_def split: sum.splits)
  have "(raw AND m) AND m = raw AND m"
    by (simp add: and.assoc)
  with m a show ?thesis
    by (simp add: IPAddress_inv_def)
qed

text \<open>
  C3. \<^verbatim>\<open>IPAddress::matches\<close> (the spec's \<open>Contains\<close>): for every address \<open>self\<close> of a
  prefix length within 0..32, as every constructed address has, and every \<open>other\<close>, the
  call returns, and it returns true exactly when the value of \<open>other\<close>, and-ed with the
  mask of the prefix length of \<open>self\<close> (its leading bits set), is the stored value
  of \<open>self\<close>. So an address whose stored value is masked contains itself, and so does
  every address the constructor builds.
\<close>

theorem IPAddress_matches_masked_equal:
  "(prefix_ok self \<longrightarrow>
      (\<exists>m. maskFromPrefix (prefix self) = Inr m \<and>
           m = NOT (mask (nat (32 - prefix self))) \<and>
           IPAddress_matches self other = Inr (addr other AND m = addr self))) \<and>
   (IPAddress_inv self \<longrightarrow> IPAddress_matches self self = Inr True) \<and>
   (IPAddress_ctor cidr = Inr self \<longrightarrow> IPAddress_matches self self = Inr True)"
proof (intro conjI impI)
  assume "prefix_ok self"
  then show "\<exists>m. maskFromPrefix (prefix self) = Inr m \<and>
           m = NOT (mask (nat (32 - prefix self))) \<and>
           IPAddress_matches self other = Inr (addr other AND m = addr self)"
    by (simp add: IPAddress_matches_eq maskFromPrefix_eq prefix_ok_def)
next
  assume "IPAddress_inv self"
  then show "IPAddress_matches self self = Inr True"
    by (simp add: IPAddress_inv_iff IPAddress_matches_eq)
next
  assume "IPAddress_ctor cidr = Inr self"
  then have "IPAddress_inv self"
    by (rule IPAddress_ctor_inv)
  then show "IPAddress_matches self self = Inr True"
    by (simp add: IPAddress_inv_iff IPAddress_matches_eq)
qed

theorem IPAddress_matches_masked_equal_witness:
  "prefix_ok \<lparr>addr = 0x0A000000, prefix = 8\<rparr> \<and>
   IPAddress_inv \<lparr>addr = 0x0A000000, prefix = 8\<rparr> \<and>
   IPAddress_ctor ''10.0.0.0/8'' = Inr \<lparr>addr = 0x0A000000, prefix = 8\<rparr> \<and>
   maskFromPrefix 8 = Inr 0xFF000000 \<and>
   IPAddress_matches \<lparr>addr = 0x0A000000, prefix = 8\<rparr> \<lparr>addr = 0x0A010203, prefix = 32\<rparr> = Inr True \<and>
   IPAddress_matches \<lparr>addr = 0x0A000000, prefix = 8\<rparr> \<lparr>addr = 0xC0000000, prefix = 32\<rparr> = Inr False \<and>
   IPAddress_matches \<lparr>addr = 0x0A000000, prefix = 8\<rparr> \<lparr>addr = 0x0A000000, prefix = 8\<rparr> = Inr True"
proof -
  let ?n = "\<lparr>addr = 0x0A000000, prefix = 8\<rparr>"
  have ok: "prefix_ok ?n"
    by (simp add: prefix_ok_def)
  have m: "maskFromPrefix 8 = Inr 0xFF000000"
    by (simp add: maskFromPrefix_def)
  have inv: "IPAddress_inv ?n"
    by (simp add: IPAddress_inv_def m)
  have ctor: "IPAddress_ctor ''10.0.0.0/8'' = Inr ?n"
    by code_simp
  have refl: "IPAddress_matches ?n ?n = Inr True"
    using IPAddress_matches_masked_equal [of ?n ?n "''10.0.0.0/8''"] ctor by blast
  have inside: "IPAddress_matches ?n \<lparr>addr = 0x0A010203, prefix = 32\<rparr> = Inr True"
    using IPAddress_matches_masked_equal [of ?n "\<lparr>addr = 0x0A010203, prefix = 32\<rparr>" "''10.0.0.0/8''"] ok m
    by auto
  have outside: "IPAddress_matches ?n \<lparr>addr = 0xC0000000, prefix = 32\<rparr> = Inr False"
    using IPAddress_matches_masked_equal [of ?n "\<lparr>addr = 0xC0000000, prefix = 32\<rparr>" "''10.0.0.0/8''"] ok m
    by auto
  from ok inv ctor m refl inside outside show ?thesis
    by blast
qed

section \<open>Best-match lookup\<close>

lemma Route_matches_eq:
  "prefix_ok (network r) \<Longrightarrow>
   Route_matches r a =
     Inr (addr a AND NOT (mask (nat (32 - prefix (network r)))) = addr (network r))"
  by (simp add: Route_matches_def IPAddress_matches_eq)

lemma ex_max_candidate:
  fixes p :: "'a \<Rightarrow> int"
  assumes "\<exists>x\<in>set rs. M x"
  shows "\<exists>x\<in>set rs. M x \<and> (\<forall>y\<in>set rs. M y \<longrightarrow> p y \<le> p x)"
proof -
  let ?C = "{y \<in> set rs. M y}"
  have fin: "finite (p ` ?C)"
    by simp
  from assms have ne: "p ` ?C \<noteq> {}"
    by auto
  from Max_in [OF fin ne] obtain x where x: "x \<in> ?C" "p x = Max (p ` ?C)"
    by auto
  have "\<forall>y\<in>set rs. M y \<longrightarrow> p y \<le> p x"
  proof (intro ballI impI)
    fix y
    assume "y \<in> set rs" "M y"
    then have "p y \<in> p ` ?C"
      by simp
    from Max_ge [OF fin this] x(2) show "p y \<le> p x"
      by simp
  qed
  with x(1) show ?thesis
    by auto
qed

text \<open>
  The first candidate of maximal prefix length in \<open>r # rs\<close> is the one in \<open>rs\<close> when
  \<open>r\<close> is no candidate or a longer candidate follows, and \<open>r\<close> itself otherwise.
\<close>

lemma find_max_skip:
  fixes p :: "'a \<Rightarrow> int"
  assumes "\<not> M r \<or> (\<exists>y\<in>set rs. M y \<and> p r < p y)"
  shows "find (\<lambda>x. M x \<and> (\<forall>y\<in>set (r # rs). M y \<longrightarrow> p y \<le> p x)) (r # rs) =
         find (\<lambda>x. M x \<and> (\<forall>y\<in>set rs. M y \<longrightarrow> p y \<le> p x)) rs"
proof -
  define P where "P = (\<lambda>x. M x \<and> (\<forall>y\<in>set (r # rs). M y \<longrightarrow> p y \<le> p x))"
  define Q where "Q = (\<lambda>x. M x \<and> (\<forall>y\<in>set rs. M y \<longrightarrow> p y \<le> p x))"
  have head: "\<not> P r"
    unfolding P_def using assms by force
  have tail: "P x = Q x" if "x \<in> set rs" for x
    unfolding P_def Q_def using assms by force
  have "find P (r # rs) = find P rs"
    using head by simp
  also have "\<dots> = find Q rs"
    by (rule find_cong [OF refl]) (rule tail)
  finally show ?thesis
    unfolding P_def Q_def .
qed

lemma find_max_take:
  fixes p :: "'a \<Rightarrow> int"
  assumes "M r" and "\<not> (\<exists>y\<in>set rs. M y \<and> p r < p y)"
  shows "find (\<lambda>x. M x \<and> (\<forall>y\<in>set (r # rs). M y \<longrightarrow> p y \<le> p x)) (r # rs) = Some r"
  using assms by force

text \<open>
  The loop, with any value of \<^verbatim>\<open>best\<close> at its start: \<^verbatim>\<open>best\<close> stays unless a
  candidate of a strictly longer prefix follows.
\<close>

lemma findRoute_loop_find:
  assumes "\<forall>r\<in>set rs. prefix_ok (network r)"
  shows "findRoute_loop rs a best =
     Inr (case best of
            None \<Rightarrow>
              find (\<lambda>x. Route_matches x a = Inr True \<and>
                         (\<forall>y\<in>set rs. Route_matches y a = Inr True \<longrightarrow>
                                      prefix (network y) \<le> prefix (network x))) rs
          | Some b \<Rightarrow>
              if \<exists>y\<in>set rs. Route_matches y a = Inr True \<and> prefix (network b) < prefix (network y)
              then find (\<lambda>x. Route_matches x a = Inr True \<and>
                         (\<forall>y\<in>set rs. Route_matches y a = Inr True \<longrightarrow>
                                      prefix (network y) \<le> prefix (network x))) rs
              else Some b)"
  using assms
proof (induction rs arbitrary: best)
  case Nil
  then show ?case
    by (simp split: option.split)
next
  case (Cons r rs)
  let ?M = "\<lambda>x. Route_matches x a = Inr True"
  let ?p = "\<lambda>x. prefix (network x)"
  from Cons.prems have ok: "prefix_ok (network r)" and oks: "\<forall>r\<in>set rs. prefix_ok (network r)"
    by simp_all
  note IH = Cons.IH [OF oks]
  obtain m where m: "Route_matches r a = Inr m"
    using Route_matches_eq [OF ok] by blast
  show ?case
  proof (cases m)
    case False
    with m have nM: "\<not> ?M r"
      by simp
    have skip: "find (\<lambda>x. ?M x \<and> (\<forall>y\<in>set (r # rs). ?M y \<longrightarrow> ?p y \<le> ?p x)) (r # rs) =
                find (\<lambda>x. ?M x \<and> (\<forall>y\<in>set rs. ?M y \<longrightarrow> ?p y \<le> ?p x)) rs"
      by (rule find_max_skip) (use nM in simp)
    have ex: "(\<exists>y\<in>set (r # rs). ?M y \<and> q < ?p y) = (\<exists>y\<in>set rs. ?M y \<and> q < ?p y)" for q
      using nM by auto
    have "findRoute_loop (r # rs) a best = findRoute_loop rs a best"
      using m False by simp
    then show ?thesis
      unfolding IH skip ex by simp
  next
    case True
    with m have M: "?M r"
      by simp
    define nb where "nb = (case best of None \<Rightarrow> Some r
                           | Some b \<Rightarrow> if ?p r > ?p b then Some r else best)"
    have step: "findRoute_loop (r # rs) a best = findRoute_loop rs a nb"
      using m True by (simp add: nb_def)
    show ?thesis
    proof (cases "\<exists>y\<in>set rs. ?M y \<and> ?p r < ?p y")
      case ex: True
      have skip: "find (\<lambda>x. ?M x \<and> (\<forall>y\<in>set (r # rs). ?M y \<longrightarrow> ?p y \<le> ?p x)) (r # rs) =
                  find (\<lambda>x. ?M x \<and> (\<forall>y\<in>set rs. ?M y \<longrightarrow> ?p y \<le> ?p x)) rs"
        by (rule find_max_skip) (use ex in simp)
      from ex M show ?thesis
        unfolding step IH skip nb_def by (auto split: option.split)
    next
      case nex: False
      have take: "find (\<lambda>x. ?M x \<and> (\<forall>y\<in>set (r # rs). ?M y \<longrightarrow> ?p y \<le> ?p x)) (r # rs) = Some r"
        by (rule find_max_take) (use M nex in simp_all)
      from nex M show ?thesis
        unfolding step IH take nb_def by (auto split: option.split)
    qed
  qed
qed

lemma findRoute_find:
  assumes "\<forall>r\<in>set routes. prefix_ok (network r)"
  shows "findRoute routes a =
     Inr (find (\<lambda>x. Route_matches x a = Inr True \<and>
                     (\<forall>y\<in>set routes. Route_matches y a = Inr True \<longrightarrow>
                                      prefix (network y) \<le> prefix (network x))) routes)"
  unfolding findRoute_def findRoute_loop_find [OF assms] by simp

lemma findRoute_loop_metric:
  "findRoute_loop (map (\<lambda>r. r\<lparr>metric := f r\<rparr>) rs) a (map_option (\<lambda>r. r\<lparr>metric := f r\<rparr>) best) =
   map_sum id (map_option (\<lambda>r. r\<lparr>metric := f r\<rparr>)) (findRoute_loop rs a best)"
proof (induction rs arbitrary: best)
  case Nil
  show ?case
    by simp
next
  case (Cons r rs)
  define g where "g = (\<lambda>r. r\<lparr>metric := f r\<rparr>)"
  have m: "Route_matches (g r) a = Route_matches r a"
    by (simp add: Route_matches_def g_def)
  have p: "prefix (network (g x)) = prefix (network x)" for x
    by (simp add: g_def)
  show ?case
  proof (cases "Route_matches r a")
    case (Inl e)
    then show ?thesis
      using m by (simp add: g_def)
  next
    case (Inr b)
    define nb where "nb =
      (if b then (case best of None \<Rightarrow> Some r
                  | Some c \<Rightarrow> if prefix (network r) > prefix (network c) then Some r else best)
       else best)"
    have L: "findRoute_loop (r # rs) a best = findRoute_loop rs a nb"
      using Inr by (simp add: nb_def)
    have R: "findRoute_loop (map g (r # rs)) a (map_option g best) =
             findRoute_loop (map g rs) a (map_option g nb)"
      using Inr m p by (cases best) (auto simp: nb_def)
    from Cons.IH [of nb] L R show ?thesis
      by (simp add: g_def)
  qed
qed

lemma ctor_examples:
  "IPAddress_ctor ''10.0.0.0/8'' = Inr \<lparr>addr = 0x0A000000, prefix = 8\<rparr>"
  "IPAddress_ctor ''10.1.0.0/16'' = Inr \<lparr>addr = 0x0A010000, prefix = 16\<rparr>"
  "IPAddress_ctor ''10.1.2.3'' = Inr \<lparr>addr = 0x0A010203, prefix = 32\<rparr>"
  "IPAddress_ctor ''10.2.0.0'' = Inr \<lparr>addr = 0x0A020000, prefix = 32\<rparr>"
  "IPAddress_ctor ''192.0.0.0'' = Inr \<lparr>addr = 0xC0000000, prefix = 32\<rparr>"
  "IPAddress_ctor ''10.0.0.0/24'' = Inr \<lparr>addr = 0x0A000000, prefix = 24\<rparr>"
  "IPAddress_ctor ''10.0.0.5'' = Inr \<lparr>addr = 0x0A000005, prefix = 32\<rparr>"
  by code_simp+

lemma findRoute_spec:
  assumes ok: "\<forall>r\<in>set routes. prefix_ok (getNetwork r)"
  shows "\<exists>res. findRoute routes d = Inr res \<and>
         (res = None \<longleftrightarrow> (\<forall>r\<in>set routes. Route_matches r d \<noteq> Inr True)) \<and>
         (\<forall>E. res = Some E \<longrightarrow>
              E \<in> set routes \<and> Route_matches E d = Inr True \<and>
              (\<forall>r\<in>set routes. Route_matches r d = Inr True \<longrightarrow>
                  getPrefix (getNetwork r) \<le> getPrefix (getNetwork E)))"
proof -
  let ?M = "\<lambda>x. Route_matches x d = Inr True"
  let ?P = "\<lambda>x. ?M x \<and> (\<forall>y\<in>set routes. ?M y \<longrightarrow> prefix (network y) \<le> prefix (network x))"
  have eq: "findRoute routes d = Inr (find ?P routes)"
    by (rule findRoute_find [OF ok])
  have none: "find ?P routes = None \<longleftrightarrow> (\<forall>r\<in>set routes. \<not> ?M r)"
  proof
    assume n: "find ?P routes = None"
    show "\<forall>r\<in>set routes. \<not> ?M r"
    proof (rule ccontr)
      assume "\<not> (\<forall>r\<in>set routes. \<not> ?M r)"
      then have "\<exists>x\<in>set routes. ?M x"
        by simp
      from ex_max_candidate [OF this, of "\<lambda>x. prefix (network x)"]
      obtain x where "x \<in> set routes" "?P x"
        by blast
      with n show False
        unfolding find_None_iff by blast
    qed
  next
    assume "\<forall>r\<in>set routes. \<not> ?M r"
    then show "find ?P routes = None"
      unfolding find_None_iff by blast
  qed
  have some: "E \<in> set routes \<and> ?P E" if "find ?P routes = Some E" for E
    using that unfolding find_Some_iff by auto
  show ?thesis
  proof (intro exI conjI allI impI)
    show "findRoute routes d = Inr (find ?P routes)"
      by (rule eq)
    show "find ?P routes = None \<longleftrightarrow> (\<forall>r\<in>set routes. Route_matches r d \<noteq> Inr True)"
      by (rule none)
  next
    fix E
    assume "find ?P routes = Some E"
    from some [OF this] show "E \<in> set routes" "Route_matches E d = Inr True"
      "\<forall>r\<in>set routes. Route_matches r d = Inr True \<longrightarrow>
                  getPrefix (getNetwork r) \<le> getPrefix (getNetwork E)"
      by simp_all
  qed
qed


lemma lpm_examples:
  "findRoute [\<lparr>network = \<lparr>addr = 0x0A000000, prefix = 8\<rparr>, gateway = G1, metric = m1\<rparr>,
              \<lparr>network = \<lparr>addr = 0x0A010000, prefix = 16\<rparr>, gateway = G2, metric = m2\<rparr>]
     \<lparr>addr = 0x0A010203, prefix = 32\<rparr> =
     Inr (Some \<lparr>network = \<lparr>addr = 0x0A010000, prefix = 16\<rparr>, gateway = G2, metric = m2\<rparr>)"
  "findRoute [\<lparr>network = \<lparr>addr = 0x0A000000, prefix = 8\<rparr>, gateway = G1, metric = m1\<rparr>,
              \<lparr>network = \<lparr>addr = 0x0A010000, prefix = 16\<rparr>, gateway = G2, metric = m2\<rparr>]
     \<lparr>addr = 0x0A020000, prefix = 32\<rparr> =
     Inr (Some \<lparr>network = \<lparr>addr = 0x0A000000, prefix = 8\<rparr>, gateway = G1, metric = m1\<rparr>)"
  "findRoute [\<lparr>network = \<lparr>addr = 0x0A000000, prefix = 8\<rparr>, gateway = G1, metric = m1\<rparr>,
              \<lparr>network = \<lparr>addr = 0x0A010000, prefix = 16\<rparr>, gateway = G2, metric = m2\<rparr>]
     \<lparr>addr = 0xC0000000, prefix = 32\<rparr> = Inr None"
  by (simp_all add: findRoute_def Route_matches_def IPAddress_matches_def maskFromPrefix_def)

text \<open>
  C1. \<^verbatim>\<open>RoutingTable::findRoute\<close> (the spec's \<open>FindBestMatch\<close>) on a table whose
  networks have prefix lengths within 0..32, and any destination: the call returns;
  it returns no route exactly when no route of the table matches the destination; and a
  route it returns is in the table, matches the destination, and has a prefix length
  that no matching route of the table exceeds. With the routes 10.0.0.0/8 by \<open>G1\<close> and
  10.1.0.0/16 by \<open>G2\<close>, the lookup of 10.1.2.3 gives the route by \<open>G2\<close>, that of
  10.2.0.0 the route by \<open>G1\<close>, and that of 192.0.0.0 none.
\<close>

theorem findRoute_longest_prefix_match:
  "((\<forall>r\<in>set routes. prefix_ok (getNetwork r)) \<longrightarrow>
      (\<exists>res. findRoute routes d = Inr res \<and>
         (res = None \<longleftrightarrow> (\<forall>r\<in>set routes. Route_matches r d \<noteq> Inr True)) \<and>
         (\<forall>E. res = Some E \<longrightarrow>
              E \<in> set routes \<and> Route_matches E d = Inr True \<and>
              (\<forall>r\<in>set routes. Route_matches r d = Inr True \<longrightarrow>
                  getPrefix (getNetwork r) \<le> getPrefix (getNetwork E))))) \<and>
   findRoute [\<lparr>network = \<lparr>addr = 0x0A000000, prefix = 8\<rparr>, gateway = G1, metric = m1\<rparr>,
              \<lparr>network = \<lparr>addr = 0x0A010000, prefix = 16\<rparr>, gateway = G2, metric = m2\<rparr>]
     \<lparr>addr = 0x0A010203, prefix = 32\<rparr> =
     Inr (Some \<lparr>network = \<lparr>addr = 0x0A010000, prefix = 16\<rparr>, gateway = G2, metric = m2\<rparr>) \<and>
   findRoute [\<lparr>network = \<lparr>addr = 0x0A000000, prefix = 8\<rparr>, gateway = G1, metric = m1\<rparr>,
              \<lparr>network = \<lparr>addr = 0x0A010000, prefix = 16\<rparr>, gateway = G2, metric = m2\<rparr>]
     \<lparr>addr = 0x0A020000, prefix = 32\<rparr> =
     Inr (Some \<lparr>network = \<lparr>addr = 0x0A000000, prefix = 8\<rparr>, gateway = G1, metric = m1\<rparr>) \<and>
   findRoute [\<lparr>network = \<lparr>addr = 0x0A000000, prefix = 8\<rparr>, gateway = G1, metric = m1\<rparr>,
              \<lparr>network = \<lparr>addr = 0x0A010000, prefix = 16\<rparr>, gateway = G2, metric = m2\<rparr>]
     \<lparr>addr = 0xC0000000, prefix = 32\<rparr> = Inr None \<and>
   IPAddress_ctor ''10.0.0.0/8'' = Inr \<lparr>addr = 0x0A000000, prefix = 8\<rparr> \<and>
   IPAddress_ctor ''10.1.0.0/16'' = Inr \<lparr>addr = 0x0A010000, prefix = 16\<rparr> \<and>
   IPAddress_ctor ''10.1.2.3'' = Inr \<lparr>addr = 0x0A010203, prefix = 32\<rparr> \<and>
   IPAddress_ctor ''10.2.0.0'' = Inr \<lparr>addr = 0x0A020000, prefix = 32\<rparr> \<and>
   IPAddress_ctor ''192.0.0.0'' = Inr \<lparr>addr = 0xC0000000, prefix = 32\<rparr>"
proof (intro conjI impI)
  assume "\<forall>r\<in>set routes. prefix_ok (getNetwork r)"
  then show "\<exists>res. findRoute routes d = Inr res \<and>
         (res = None \<longleftrightarrow> (\<forall>r\<in>set routes. Route_matches r d \<noteq> Inr True)) \<and>
         (\<forall>E. res = Some E \<longrightarrow>
              E \<in> set routes \<and> Route_matches E d = Inr True \<and>
              (\<forall>r\<in>set routes. Route_matches r d = Inr True \<longrightarrow>
                  getPrefix (getNetwork r) \<le> getPrefix (getNetwork E)))"
    by (rule findRoute_spec)
qed (rule lpm_examples ctor_examples)+

theorem findRoute_longest_prefix_match_witness:
  "prefix_ok \<lparr>addr = 0x0A000000, prefix = 8\<rparr> \<and>
   prefix_ok \<lparr>addr = 0x0A010000, prefix = 16\<rparr> \<and>
   findRoute [\<lparr>network = \<lparr>addr = 0x0A000000, prefix = 8\<rparr>,
                gateway = \<lparr>addr = 0x0A000001, prefix = 32\<rparr>, metric = 5\<rparr>,
              \<lparr>network = \<lparr>addr = 0x0A010000, prefix = 16\<rparr>,
                gateway = \<lparr>addr = 0x0A010001, prefix = 32\<rparr>, metric = 1\<rparr>]
     \<lparr>addr = 0x0A010203, prefix = 32\<rparr> =
     Inr (Some \<lparr>network = \<lparr>addr = 0x0A010000, prefix = 16\<rparr>,
                 gateway = \<lparr>addr = 0x0A010001, prefix = 32\<rparr>, metric = 1\<rparr>) \<and>
   Route_matches \<lparr>network = \<lparr>addr = 0x0A010000, prefix = 16\<rparr>,
                   gateway = \<lparr>addr = 0x0A010001, prefix = 32\<rparr>, metric = 1\<rparr>
     \<lparr>addr = 0x0A010203, prefix = 32\<rparr> = Inr True"
proof -
  let ?r1 = "\<lparr>network = \<lparr>addr = 0x0A000000, prefix = 8\<rparr>,
               gateway = \<lparr>addr = 0x0A000001, prefix = 32\<rparr>, metric = 5\<rparr>"
  let ?r2 = "\<lparr>network = \<lparr>addr = 0x0A010000, prefix = 16\<rparr>,
               gateway = \<lparr>addr = 0x0A010001, prefix = 32\<rparr>, metric = 1\<rparr>"
  let ?d = "\<lparr>addr = 0x0A010203, prefix = 32\<rparr>"
  have p1: "prefix_ok \<lparr>addr = 0x0A000000, prefix = 8\<rparr>"
    and p2: "prefix_ok \<lparr>addr = 0x0A010000, prefix = 16\<rparr>"
    by (simp_all add: prefix_ok_def)
  then have ok: "\<forall>r\<in>set [?r1, ?r2]. prefix_ok (getNetwork r)"
    by simp
  from findRoute_longest_prefix_match [where routes = "[?r1, ?r2]" and d = ?d] ok
  obtain res where res: "findRoute [?r1, ?r2] ?d = Inr res"
    and some: "\<forall>E. res = Some E \<longrightarrow> E \<in> set [?r1, ?r2] \<and> Route_matches E ?d = Inr True"
    by blast
  have "findRoute [?r1, ?r2] ?d = Inr (Some ?r2)"
    by (rule lpm_examples)
  with res have r: "res = Some ?r2"
    by simp
  with some have "Route_matches ?r2 ?d = Inr True"
    by blast
  with res r p1 p2 show ?thesis
    by simp
qed

lemma tie_example:
  "findRoute [\<lparr>network = \<lparr>addr = 0x0A000000, prefix = 24\<rparr>, gateway = G1, metric = m1\<rparr>,
              \<lparr>network = \<lparr>addr = 0x0A000000, prefix = 24\<rparr>, gateway = G2, metric = m2\<rparr>]
     \<lparr>addr = 0x0A000005, prefix = 32\<rparr> =
     Inr (Some \<lparr>network = \<lparr>addr = 0x0A000000, prefix = 24\<rparr>, gateway = G1, metric = m1\<rparr>)"
  by (simp add: findRoute_def Route_matches_def IPAddress_matches_def maskFromPrefix_def)

lemma findRoute_loop_keep:
  assumes "Route_matches r d = Inr True"
    and "getPrefix (getNetwork r) \<le> getPrefix (getNetwork b)"
  shows "findRoute_loop (r # rs) d (Some b) = findRoute_loop rs d (Some b)"
  using assms by simp

lemma findRoute_loop_replace:
  assumes "Route_matches r d = Inr True"
    and "getPrefix (getNetwork b) < getPrefix (getNetwork r)"
  shows "findRoute_loop (r # rs) d (Some b) = findRoute_loop rs d (Some r)"
  using assms by simp

lemma findRoute_metric:
  "findRoute (map (\<lambda>r. r\<lparr>metric := f r\<rparr>) routes) d =
   map_sum id (map_option (\<lambda>r. r\<lparr>metric := f r\<rparr>)) (findRoute routes d)"
  using findRoute_loop_metric [of f routes d None] by (simp add: findRoute_def)

text \<open>
  C2. Ties. On a table whose networks have prefix lengths within 0..32, \<^verbatim>\<open>findRoute\<close>
  returns the first route, in the order of insertion, that matches the destination and
  whose prefix length no matching route exceeds. A step of the scan keeps \<^verbatim>\<open>best\<close>
  when the matching route is not strictly longer, and replaces it when it is. The
  metrics play no part: changing them changes the result in its metric only. After
  10.0.0.0/24 by \<open>G1\<close> and then 10.0.0.0/24 by \<open>G2\<close>, the lookup of 10.0.0.5 gives
  the route by \<open>G1\<close>.
\<close>

theorem findRoute_first_of_longest:
  "((\<forall>r\<in>set routes. prefix_ok (getNetwork r)) \<longrightarrow>
      findRoute routes d =
        Inr (find (\<lambda>x. Route_matches x d = Inr True \<and>
                        (\<forall>y\<in>set routes. Route_matches y d = Inr True \<longrightarrow>
                            getPrefix (getNetwork y) \<le> getPrefix (getNetwork x))) routes)) \<and>
   (Route_matches r d = Inr True \<and> getPrefix (getNetwork r) \<le> getPrefix (getNetwork b) \<longrightarrow>
      findRoute_loop (r # rs) d (Some b) = findRoute_loop rs d (Some b)) \<and>
   (Route_matches r d = Inr True \<and> getPrefix (getNetwork b) < getPrefix (getNetwork r) \<longrightarrow>
      findRoute_loop (r # rs) d (Some b) = findRoute_loop rs d (Some r)) \<and>
   findRoute (map (\<lambda>r. r\<lparr>metric := f r\<rparr>) routes) d =
     map_sum id (map_option (\<lambda>r. r\<lparr>metric := f r\<rparr>)) (findRoute routes d) \<and>
   findRoute [\<lparr>network = \<lparr>addr = 0x0A000000, prefix = 24\<rparr>, gateway = G1, metric = m1\<rparr>,
              \<lparr>network = \<lparr>addr = 0x0A000000, prefix = 24\<rparr>, gateway = G2, metric = m2\<rparr>]
     \<lparr>addr = 0x0A000005, prefix = 32\<rparr> =
     Inr (Some \<lparr>network = \<lparr>addr = 0x0A000000, prefix = 24\<rparr>, gateway = G1, metric = m1\<rparr>) \<and>
   IPAddress_ctor ''10.0.0.0/24'' = Inr \<lparr>addr = 0x0A000000, prefix = 24\<rparr> \<and>
   IPAddress_ctor ''10.0.0.5'' = Inr \<lparr>addr = 0x0A000005, prefix = 32\<rparr>"
proof (intro conjI impI)
  assume "\<forall>r\<in>set routes. prefix_ok (getNetwork r)"
  then show "findRoute routes d =
        Inr (find (\<lambda>x. Route_matches x d = Inr True \<and>
                        (\<forall>y\<in>set routes. Route_matches y d = Inr True \<longrightarrow>
                            getPrefix (getNetwork y) \<le> getPrefix (getNetwork x))) routes)"
    by (rule findRoute_find)
next
  assume "Route_matches r d = Inr True \<and> getPrefix (getNetwork r) \<le> getPrefix (getNetwork b)"
  then show "findRoute_loop (r # rs) d (Some b) = findRoute_loop rs d (Some b)"
    by (simp add: findRoute_loop_keep)
next
  assume "Route_matches r d = Inr True \<and> getPrefix (getNetwork b) < getPrefix (getNetwork r)"
  then show "findRoute_loop (r # rs) d (Some b) = findRoute_loop rs d (Some r)"
    by (simp add: findRoute_loop_replace)
qed (rule findRoute_metric tie_example ctor_examples)+

theorem findRoute_first_of_longest_witness:
  "prefix_ok \<lparr>addr = 0x0A000000, prefix = 24\<rparr> \<and>
   Route_matches \<lparr>network = \<lparr>addr = 0x0A000000, prefix = 24\<rparr>,
                   gateway = \<lparr>addr = 0x0A000002, prefix = 32\<rparr>, metric = 1\<rparr>
     \<lparr>addr = 0x0A000005, prefix = 32\<rparr> = Inr True \<and>
   findRoute_loop [\<lparr>network = \<lparr>addr = 0x0A000000, prefix = 24\<rparr>,
                     gateway = \<lparr>addr = 0x0A000002, prefix = 32\<rparr>, metric = 1\<rparr>]
     \<lparr>addr = 0x0A000005, prefix = 32\<rparr>
     (Some \<lparr>network = \<lparr>addr = 0x0A000000, prefix = 24\<rparr>,
             gateway = \<lparr>addr = 0x0A000001, prefix = 32\<rparr>, metric = 9\<rparr>) =
     Inr (Some \<lparr>network = \<lparr>addr = 0x0A000000, prefix = 24\<rparr>,
                 gateway = \<lparr>addr = 0x0A000001, prefix = 32\<rparr>, metric = 9\<rparr>) \<and>
   findRoute [\<lparr>network = \<lparr>addr = 0x0A000000, prefix = 24\<rparr>,
                gateway = \<lparr>addr = 0x0A000001, prefix = 32\<rparr>, metric = 9\<rparr>,
              \<lparr>network = \<lparr>addr = 0x0A000000, prefix = 24\<rparr>,
                gateway = \<lparr>addr = 0x0A000002, prefix = 32\<rparr>, metric = 1\<rparr>]
     \<lparr>addr = 0x0A000005, prefix = 32\<rparr> =
     Inr (Some \<lparr>network = \<lparr>addr = 0x0A000000, prefix = 24\<rparr>,
                 gateway = \<lparr>addr = 0x0A000001, prefix = 32\<rparr>, metric = 9\<rparr>)"
proof -
  let ?r1 = "\<lparr>network = \<lparr>addr = 0x0A000000, prefix = 24\<rparr>,
               gateway = \<lparr>addr = 0x0A000001, prefix = 32\<rparr>, metric = 9\<rparr>"
  let ?r2 = "\<lparr>network = \<lparr>addr = 0x0A000000, prefix = 24\<rparr>,
               gateway = \<lparr>addr = 0x0A000002, prefix = 32\<rparr>, metric = 1\<rparr>"
  let ?d = "\<lparr>addr = 0x0A000005, prefix = 32\<rparr>"
  let ?P = "\<lambda>x. Route_matches x ?d = Inr True \<and>
                 (\<forall>y\<in>set [?r1, ?r2]. Route_matches y ?d = Inr True \<longrightarrow>
                     getPrefix (getNetwork y) \<le> getPrefix (getNetwork x))"
  note inst = findRoute_first_of_longest [where routes = "[?r1, ?r2]" and d = ?d and r = ?r2
      and b = ?r1 and rs = "[]"]
  have p: "prefix_ok \<lparr>addr = 0x0A000000, prefix = 24\<rparr>"
    by (simp add: prefix_ok_def)
  then have ok: "\<forall>r\<in>set [?r1, ?r2]. prefix_ok (getNetwork r)"
    by simp
  have m1: "Route_matches ?r1 ?d = Inr True" and m2: "Route_matches ?r2 ?d = Inr True"
    by (simp_all add: Route_matches_def IPAddress_matches_def maskFromPrefix_def)
  from inst ok have "findRoute [?r1, ?r2] ?d = Inr (find ?P [?r1, ?r2])"
    by blast
  moreover have "?P ?r1"
    using m1 m2 by simp
  ultimately have first: "findRoute [?r1, ?r2] ?d = Inr (Some ?r1)"
    by simp
  from inst m2 have "findRoute_loop [?r2] ?d (Some ?r1) = findRoute_loop [] ?d (Some ?r1)"
    by simp
  then have keep: "findRoute_loop [?r2] ?d (Some ?r1) = Inr (Some ?r1)"
    by simp
  from p m2 keep first show ?thesis
    by simp
qed

section \<open>Removal\<close>

lemma length_filter_eq_iff:
  "length (filter P xs) = length xs \<longleftrightarrow> (\<forall>x\<in>set xs. P x)"
proof (induction xs)
  case Nil
  show ?case by simp
next
  case (Cons x xs)
  have le: "length (filter P xs) \<le> length xs"
    by (rule length_filter_le)
  show ?case
  proof (cases "P x")
    case True
    with Cons show ?thesis
      by simp
  next
    case False
    from le have "length (filter P xs) \<noteq> Suc (length xs)"
      by linarith
    with False show ?thesis
      by simp
  qed
qed

lemma IPAddress_eq_iff: "IPAddress_eq a b \<longleftrightarrow> a = b"
  by (cases a, cases b) (simp add: IPAddress_eq_def)

lemma removeRoute_fst:
  "fst (removeRoute n routes) = filter (\<lambda>r. getNetwork r \<noteq> n) routes"
  by (simp add: removeRoute_def Let_def IPAddress_eq_iff)

lemma removeRoute_snd:
  "snd (removeRoute n routes) =
     (if \<exists>r\<in>set routes. getNetwork r = n
      then ''Trasa zosta'' @ [CHR 0xC5, CHR 0x82] @ ''a usuni'' @ [CHR 0xC4, CHR 0x99] @ ''ta.'' @ [CHR 0x0A]
      else ''Nie znaleziono podanej trasy.'' @ [CHR 0x0A])"
  by (simp add: removeRoute_def Let_def IPAddress_eq_iff length_filter_eq_iff)

lemma removeRoute_none:
  assumes "\<forall>r\<in>set routes. getNetwork r \<noteq> n"
  shows "removeRoute n routes = (routes, ''Nie znaleziono podanej trasy.'' @ [CHR 0x0A])"
proof -
  from assms have "filter (\<lambda>r. getNetwork r \<noteq> n) routes = routes"
    by (simp add: filter_id_conv)
  with assms show ?thesis
    using removeRoute_fst [of n routes] removeRoute_snd [of n routes]
    by (simp add: prod_eq_iff)
qed

lemma handleDelete_table:
  assumes "extract_string ss = Some (net, rest)" and "IPAddress_ctor net = Inr n"
  shows "table (fst (handleDelete ss s)) = filter (\<lambda>r. getNetwork r \<noteq> n) (table s)"
    and "snd (handleDelete ss s) = None"
    and "log (fst (handleDelete ss s)) = log s @ ''DEL '' @ net @ [CHR 0x0A]"
  using assms removeRoute_fst [of n "table s"]
  by (auto simp: handleDelete_def split: prod.split)

lemma remove_example:
  "removeRoute \<lparr>addr = 0x0A000000, prefix = 24\<rparr>
     [\<lparr>network = \<lparr>addr = 0x0A000000, prefix = 25\<rparr>, gateway = G1, metric = m1\<rparr>,
      \<lparr>network = \<lparr>addr = 0x0A000000, prefix = 24\<rparr>, gateway = G2, metric = m2\<rparr>,
      \<lparr>network = \<lparr>addr = 0x0A000100, prefix = 24\<rparr>, gateway = G3, metric = m3\<rparr>,
      \<lparr>network = \<lparr>addr = 0x0A000000, prefix = 24\<rparr>, gateway = G4, metric = m4\<rparr>] =
   ([\<lparr>network = \<lparr>addr = 0x0A000000, prefix = 25\<rparr>, gateway = G1, metric = m1\<rparr>,
     \<lparr>network = \<lparr>addr = 0x0A000100, prefix = 24\<rparr>, gateway = G3, metric = m3\<rparr>],
    ''Trasa zosta'' @ [CHR 0xC5, CHR 0x82] @ ''a usuni'' @ [CHR 0xC4, CHR 0x99] @ ''ta.'' @ [CHR 0x0A])"
  by (simp add: removeRoute_def IPAddress_eq_def)


text \<open>
  C5. \<^verbatim>\<open>RoutingTable::removeRoute\<close> (the spec's \<open>Remove\<close>): the table after the call is
  the table before it without the routes whose network equals the argument, the others
  in their order; two networks are equal when value and prefix length both are, so that
  removing a /24 keeps a /25 of the same base address. The message on \<^verbatim>\<open>cout\<close> says
  whether a route was removed. When no network equals the argument the table is the one
  before the call. The \<^verbatim>\<open>del\<close> command does this with the network it parses.
\<close>

theorem removeRoute_exact_network:
  "fst (removeRoute n routes) = filter (\<lambda>r. getNetwork r \<noteq> n) routes \<and>
   (IPAddress_eq a b \<longleftrightarrow> addr a = addr b \<and> prefix a = prefix b) \<and>
   (IPAddress_eq a b \<longleftrightarrow> a = b) \<and>
   snd (removeRoute n routes) =
     (if \<exists>r\<in>set routes. getNetwork r = n
      then ''Trasa zosta'' @ [CHR 0xC5, CHR 0x82] @ ''a usuni'' @ [CHR 0xC4, CHR 0x99] @ ''ta.'' @ [CHR 0x0A]
      else ''Nie znaleziono podanej trasy.'' @ [CHR 0x0A]) \<and>
   ((\<forall>r\<in>set routes. getNetwork r \<noteq> n) \<longrightarrow>
      removeRoute n routes = (routes, ''Nie znaleziono podanej trasy.'' @ [CHR 0x0A])) \<and>
   (extract_string ss = Some (net, rest) \<and> IPAddress_ctor net = Inr n \<longrightarrow>
      table (fst (handleDelete ss s)) = filter (\<lambda>r. getNetwork r \<noteq> n) (table s) \<and>
      snd (handleDelete ss s) = None) \<and>
   removeRoute \<lparr>addr = 0x0A000000, prefix = 24\<rparr>
     [\<lparr>network = \<lparr>addr = 0x0A000000, prefix = 25\<rparr>, gateway = G1, metric = m1\<rparr>,
      \<lparr>network = \<lparr>addr = 0x0A000000, prefix = 24\<rparr>, gateway = G2, metric = m2\<rparr>,
      \<lparr>network = \<lparr>addr = 0x0A000100, prefix = 24\<rparr>, gateway = G3, metric = m3\<rparr>,
      \<lparr>network = \<lparr>addr = 0x0A000000, prefix = 24\<rparr>, gateway = G4, metric = m4\<rparr>] =
   ([\<lparr>network = \<lparr>addr = 0x0A000000, prefix = 25\<rparr>, gateway = G1, metric = m1\<rparr>,
     \<lparr>network = \<lparr>addr = 0x0A000100, prefix = 24\<rparr>, gateway = G3, metric = m3\<rparr>],
    ''Trasa zosta'' @ [CHR 0xC5, CHR 0x82] @ ''a usuni'' @ [CHR 0xC4, CHR 0x99] @ ''ta.'' @ [CHR 0x0A])"
proof (intro conjI impI)
  show "IPAddress_eq a b \<longleftrightarrow> addr a = addr b \<and> prefix a = prefix b"
    by (simp add: IPAddress_eq_def)
next
  assume "\<forall>r\<in>set routes. getNetwork r \<noteq> n"
  then show "removeRoute n routes = (routes, ''Nie znaleziono podanej trasy.'' @ [CHR 0x0A])"
    by (rule removeRoute_none)
next
  assume h: "extract_string ss = Some (net, rest) \<and> IPAddress_ctor net = Inr n"
  then show "table (fst (handleDelete ss s)) = filter (\<lambda>r. getNetwork r \<noteq> n) (table s)"
    by (simp add: handleDelete_table)
  from h show "snd (handleDelete ss s) = None"
    using handleDelete_table(2) [of ss net rest n s] by simp
qed (rule removeRoute_fst IPAddress_eq_iff removeRoute_snd remove_example)+

theorem removeRoute_exact_network_witness:
  "removeRoute \<lparr>addr = 0x0A000000, prefix = 24\<rparr>
     [\<lparr>network = \<lparr>addr = 0x0A000000, prefix = 25\<rparr>,
        gateway = \<lparr>addr = 0x0A000001, prefix = 32\<rparr>, metric = 7\<rparr>] =
     ([\<lparr>network = \<lparr>addr = 0x0A000000, prefix = 25\<rparr>,
         gateway = \<lparr>addr = 0x0A000001, prefix = 32\<rparr>, metric = 7\<rparr>],
      ''Nie znaleziono podanej trasy.'' @ [CHR 0x0A]) \<and>
   extract_string '' 10.0.0.0/24'' = Some (''10.0.0.0/24'', []) \<and>
   IPAddress_ctor ''10.0.0.0/24'' = Inr \<lparr>addr = 0x0A000000, prefix = 24\<rparr> \<and>
   table (fst (handleDelete '' 10.0.0.0/24''
     \<lparr>table = [\<lparr>network = \<lparr>addr = 0x0A000000, prefix = 25\<rparr>,
                   gateway = \<lparr>addr = 0x0A000001, prefix = 32\<rparr>, metric = 7\<rparr>,
                 \<lparr>network = \<lparr>addr = 0x0A000000, prefix = 24\<rparr>,
                   gateway = \<lparr>addr = 0x0A000002, prefix = 32\<rparr>, metric = 3\<rparr>],
       log = [], cout = []\<rparr>)) =
     [\<lparr>network = \<lparr>addr = 0x0A000000, prefix = 25\<rparr>,
        gateway = \<lparr>addr = 0x0A000001, prefix = 32\<rparr>, metric = 7\<rparr>]"
proof -
  let ?n = "\<lparr>addr = 0x0A000000, prefix = 24\<rparr>"
  let ?r25 = "\<lparr>network = \<lparr>addr = 0x0A000000, prefix = 25\<rparr>,
                gateway = \<lparr>addr = 0x0A000001, prefix = 32\<rparr>, metric = 7\<rparr>"
  let ?r24 = "\<lparr>network = \<lparr>addr = 0x0A000000, prefix = 24\<rparr>,
                gateway = \<lparr>addr = 0x0A000002, prefix = 32\<rparr>, metric = 3\<rparr>"
  let ?s = "\<lparr>table = [?r25, ?r24], log = [], cout = []\<rparr>"
  have none: "\<forall>r\<in>set [?r25]. getNetwork r \<noteq> ?n"
    by simp
  have ex: "extract_string '' 10.0.0.0/24'' = Some (''10.0.0.0/24'', [])"
    by code_simp
  have ctor: "IPAddress_ctor ''10.0.0.0/24'' = Inr ?n"
    by (rule ctor_examples)
  from removeRoute_exact_network [where n = ?n and routes = "[?r25]"] none
  have a: "removeRoute ?n [?r25] = ([?r25], ''Nie znaleziono podanej trasy.'' @ [CHR 0x0A])"
    by blast
  from removeRoute_exact_network [where ss = "'' 10.0.0.0/24''" and net = "''10.0.0.0/24''"
      and rest = "[]" and n = ?n and s = ?s] ex ctor
  have "table (fst (handleDelete '' 10.0.0.0/24'' ?s)) =
        filter (\<lambda>r. getNetwork r \<noteq> ?n) (table ?s)"
    by blast
  then have b: "table (fst (handleDelete '' 10.0.0.0/24'' ?s)) = [?r25]"
    by simp
  from a ex ctor b show ?thesis
    by simp
qed

section \<open>Printing and reading decimal numbers\<close>

lemma isdigit_char_of: "k < 10 \<Longrightarrow> isdigit (char_of (48 + k :: nat))"
  by (simp add: isdigit_def)

lemma of_char_digit: "k < 10 \<Longrightarrow> of_char (char_of (48 + k :: nat)) - 48 = (k :: nat)"
  by simp

lemma show_nat_digits: "show_nat n \<noteq> [] \<and> (\<forall>c\<in>set (show_nat n). isdigit c)"
proof (induction n rule: show_nat.induct)
  case (1 n)
  show ?case
  proof (cases "n < 10")
    case True
    then show ?thesis
      by (simp add: show_nat.simps [of n] isdigit_char_of)
  next
    case False
    have "n mod 10 < 10"
      by simp
    then have "isdigit (char_of (48 + n mod 10))"
      by (rule isdigit_char_of)
    with False 1 show ?thesis
      by (simp add: show_nat.simps [of n])
  qed
qed

lemma digits_value_snoc:
  "digits_value acc (xs @ [c]) = 10 * digits_value acc xs + (of_char c - 48)"
  by (induction xs arbitrary: acc) simp_all

lemma digits_value_show_nat: "digits_value 0 (show_nat n) = n"
proof (induction n rule: show_nat.induct)
  case (1 n)
  show ?case
  proof (cases "n < 10")
    case True
    then show ?thesis
      by (simp add: show_nat.simps [of n])
  next
    case False
    have "of_char (char_of (48 + n mod 10)) - 48 = n mod 10"
      by (rule of_char_digit) simp
    with False 1 show ?thesis
      by (simp add: show_nat.simps [of n] digits_value_snoc)
  qed
qed

lemma isdigit_not_special:
  assumes "isdigit c"
  shows "\<not> isspace c" and "c \<noteq> CHR ''-''" and "c \<noteq> CHR ''+''" and "c \<noteq> CHR ''.''"
    and "c \<noteq> CHR ''/''" and "of_char c \<noteq> (0::nat)"
  using assms by (auto simp: isdigit_def isspace_def)

lemma takeWhile_digits:
  assumes "\<forall>c\<in>set ds. isdigit c" and "rest = [] \<or> \<not> isdigit (hd rest)"
  shows "takeWhile isdigit (ds @ rest) = ds" and "dropWhile isdigit (ds @ rest) = rest"
proof -
  from assms(2) have t: "takeWhile isdigit rest = []" and d: "dropWhile isdigit rest = rest"
    by (cases rest; simp)+
  from assms(1) show "takeWhile isdigit (ds @ rest) = ds"
    by (simp add: t)
  from assms(1) show "dropWhile isdigit (ds @ rest) = rest"
    by (simp add: d)
qed

lemma scan_decimal_show_nat:
  assumes "rest = [] \<or> \<not> isdigit (hd rest)"
  shows "scan_decimal (show_nat n @ rest) = Some (int n, rest)"
proof -
  obtain d ds where ds: "show_nat n = d # ds"
    using show_nat_digits [of n] by (cases "show_nat n") auto
  have dig: "\<forall>c\<in>set (d # ds). isdigit c"
    using show_nat_digits [of n] ds by simp
  then have d: "isdigit d"
    by simp
  note sp = isdigit_not_special [OF d]
  have tw: "takeWhile isdigit ((d # ds) @ rest) = d # ds"
    and dw: "dropWhile isdigit ((d # ds) @ rest) = rest"
    using takeWhile_digits [OF dig assms] by simp_all
  have val: "digits_value 0 (d # ds) = n"
    using digits_value_show_nat [of n] ds by simp
  have "scan_decimal ((d # ds) @ rest) = Some (int (digits_value 0 (d # ds)), rest)"
    unfolding scan_decimal_def using sp tw dw by (simp add: Let_def)
  with val ds show ?thesis
    by simp
qed

lemma scan_decimal_show_int:
  assumes "rest = [] \<or> \<not> isdigit (hd rest)"
  shows "scan_decimal (show_int m @ rest) = Some (m, rest)"
proof (cases "m < 0")
  case False
  then show ?thesis
    using scan_decimal_show_nat [OF assms, of "nat m"] by (simp add: show_int_def)
next
  case True
  define n where "n = nat (- m)"
  obtain d ds where ds: "show_nat n = d # ds"
    using show_nat_digits [of n] by (cases "show_nat n") auto
  have dig: "\<forall>c\<in>set (d # ds). isdigit c"
    using show_nat_digits [of n] ds by simp
  have tw: "takeWhile isdigit ((d # ds) @ rest) = d # ds"
    and dw: "dropWhile isdigit ((d # ds) @ rest) = rest"
    using takeWhile_digits [OF dig assms] by simp_all
  have val: "digits_value 0 (d # ds) = n"
    using digits_value_show_nat [of n] ds by simp
  have minus: "\<not> isspace CHR ''-''"
    by (simp add: isspace_def)
  have "scan_decimal (CHR ''-'' # (d # ds) @ rest) = Some (- int (digits_value 0 (d # ds)), rest)"
    unfolding scan_decimal_def using minus tw dw by (simp add: Let_def)
  with val ds True show ?thesis
    by (simp add: show_int_def n_def)
qed

section \<open>The command handlers\<close>

lemma extract_string_word:
  assumes "w \<noteq> []" and "\<forall>c\<in>set w. \<not> isspace c" and "rest = [] \<or> isspace (hd rest)"
  shows "extract_string (w @ rest) = Some (w, rest)"
    and "extract_string (CHR '' '' # w @ rest) = Some (w, rest)"
proof -
  from assms(3) have t: "takeWhile (\<lambda>c. \<not> isspace c) rest = []"
    and d: "dropWhile (\<lambda>c. \<not> isspace c) rest = rest"
    by (cases rest; simp)+
  from assms(1,2) have dw: "dropWhile isspace (w @ rest) = w @ rest"
    by (cases w) simp_all
  from assms(2) have tw: "takeWhile (\<lambda>c. \<not> isspace c) (w @ rest) = w"
    and dn: "dropWhile (\<lambda>c. \<not> isspace c) (w @ rest) = rest"
    by (simp_all add: t d)
  from assms(1) dw tw dn show "extract_string (w @ rest) = Some (w, rest)"
    by (simp add: extract_string_def Let_def)
  have sp: "isspace CHR '' ''"
    by (simp add: isspace_def)
  from assms(1) dw tw dn sp show "extract_string (CHR '' '' # w @ rest) = Some (w, rest)"
    by (simp add: extract_string_def Let_def)
qed

lemma extract_int_show_int:
  assumes "INT_MIN \<le> m" and "m \<le> INT_MAX" and "rest = [] \<or> \<not> isdigit (hd rest)"
  shows "extract_int (show_int m @ rest) = Some (m, rest)"
    and "extract_int (CHR '' '' # show_int m @ rest) = Some (m, rest)"
proof -
  have sp: "isspace CHR '' ''"
    by (simp add: isspace_def)
  then have "scan_decimal (CHR '' '' # show_int m @ rest) = scan_decimal (show_int m @ rest)"
    by (simp add: scan_decimal_def)
  with assms show "extract_int (show_int m @ rest) = Some (m, rest)"
    and "extract_int (CHR '' '' # show_int m @ rest) = Some (m, rest)"
    by (simp_all add: extract_int_def scan_decimal_show_int)
qed

lemma handleAdd_ok:
  assumes "extract_string ss = Some (net, ss1)" and "extract_string ss1 = Some (gw, ss2)"
    and "extract_int ss2 = Some (m, ss3)"
    and "IPAddress_ctor net = Inr n" and "IPAddress_ctor gw = Inr g"
  shows "handleAdd ss s =
     (s\<lparr>table := table s @ [\<lparr>network = n, gateway = g, metric = m\<rparr>],
        cout := cout s @ ''Dodano tras'' @ [CHR 0xC4, CHR 0x99] @ ''.'' @ [CHR 0x0A],
        log := log s @ ''ADD '' @ net @ '' przez '' @ gw @ '' metryka '' @ show_int m @ [CHR 0x0A]\<rparr>,
      None)"
  using assms by (simp add: handleAdd_def addRoute_def)

lemma handleAdd_text:
  assumes net: "net \<noteq> []" "\<forall>c\<in>set net. \<not> isspace c"
    and gw: "gw \<noteq> []" "\<forall>c\<in>set gw. \<not> isspace c"
    and m: "INT_MIN \<le> m" "m \<le> INT_MAX"
    and ctor: "IPAddress_ctor net = Inr n" "IPAddress_ctor gw = Inr g"
  shows "handleAdd ('' '' @ net @ '' '' @ gw @ '' '' @ show_int m) s =
     (s\<lparr>table := table s @ [\<lparr>network = n, gateway = g, metric = m\<rparr>],
        cout := cout s @ ''Dodano tras'' @ [CHR 0xC4, CHR 0x99] @ ''.'' @ [CHR 0x0A],
        log := log s @ ''ADD '' @ net @ '' przez '' @ gw @ '' metryka '' @ show_int m @ [CHR 0x0A]\<rparr>,
      None)"
proof -
  have sp: "isspace CHR '' ''"
    by (simp add: isspace_def)
  have 1: "extract_string ('' '' @ net @ '' '' @ gw @ '' '' @ show_int m) =
           Some (net, '' '' @ gw @ '' '' @ show_int m)"
    using extract_string_word(2) [OF net, of "'' '' @ gw @ '' '' @ show_int m"] sp by simp
  have 2: "extract_string ('' '' @ gw @ '' '' @ show_int m) = Some (gw, '' '' @ show_int m)"
    using extract_string_word(2) [OF gw, of "'' '' @ show_int m"] sp by simp
  have 3: "extract_int ('' '' @ show_int m) = Some (m, [])"
    using extract_int_show_int(2) [OF m, of "[]"] by simp
  show ?thesis
    by (rule handleAdd_ok [OF 1 2 3 ctor])
qed

lemma handleAdd_error:
  "snd (handleAdd ss s) = Some e \<Longrightarrow> fst (handleAdd ss s) = s"
  by (auto simp: handleAdd_def Let_def split: option.splits sum.splits prod.splits)

lemma handleDelete_error:
  "snd (handleDelete ss s) = Some e \<Longrightarrow> fst (handleDelete ss s) = s"
  by (auto simp: handleDelete_def Let_def split: option.splits sum.splits prod.splits)

lemma handleSend_table: "table (fst (handleSend ss s)) = table s"
  by (auto simp: handleSend_def Let_def split: option.splits sum.splits prod.splits)

lemma handleSend_error:
  "snd (handleSend ss s) = Some e \<Longrightarrow> log (fst (handleSend ss s)) = log s"
  by (auto simp: handleSend_def Let_def split: option.splits sum.splits prod.splits)

lemma try_catch_table_log:
  "table (try_catch r) = table (fst r)" "log (try_catch r) = log (fst r)"
  by (cases r; cases "snd r"; simp add: try_catch_def)+

text \<open>
  C10. \<^verbatim>\<open>handleAdd\<close> never looks at the metric it read: whenever the three arguments
  are read and both addresses parse, it appends the route with that metric and logs it,
  whatever the metric. Every \<^verbatim>\<open>int\<close>, negative ones too, is read back from its decimal
  text, so that for every such metric and every pair of parseable address words the
  command adds the route with the metric unchanged.
\<close>

theorem handleAdd_any_metric:
  "(extract_string ss = Some (net, ss1) \<and> extract_string ss1 = Some (gw, ss2) \<and>
    extract_int ss2 = Some (m, ss3) \<and>
    IPAddress_ctor net = Inr n \<and> IPAddress_ctor gw = Inr g \<longrightarrow>
      handleAdd ss s =
       (s\<lparr>table := table s @ [\<lparr>network = n, gateway = g, metric = m\<rparr>],
          cout := cout s @ ''Dodano tras'' @ [CHR 0xC4, CHR 0x99] @ ''.'' @ [CHR 0x0A],
          log := log s @ ''ADD '' @ net @ '' przez '' @ gw @ '' metryka '' @ show_int m @ [CHR 0x0A]\<rparr>,
        None)) \<and>
   (net \<noteq> [] \<and> (\<forall>c\<in>set net. \<not> isspace c) \<and> gw \<noteq> [] \<and> (\<forall>c\<in>set gw. \<not> isspace c) \<and>
    INT_MIN \<le> m \<and> m \<le> INT_MAX \<and>
    IPAddress_ctor net = Inr n \<and> IPAddress_ctor gw = Inr g \<longrightarrow>
      handleAdd ('' '' @ net @ '' '' @ gw @ '' '' @ show_int m) s =
       (s\<lparr>table := table s @ [\<lparr>network = n, gateway = g, metric = m\<rparr>],
          cout := cout s @ ''Dodano tras'' @ [CHR 0xC4, CHR 0x99] @ ''.'' @ [CHR 0x0A],
          log := log s @ ''ADD '' @ net @ '' przez '' @ gw @ '' metryka '' @ show_int m @ [CHR 0x0A]\<rparr>,
        None))"
proof (intro conjI impI)
  assume "extract_string ss = Some (net, ss1) \<and> extract_string ss1 = Some (gw, ss2) \<and>
    extract_int ss2 = Some (m, ss3) \<and>
    IPAddress_ctor net = Inr n \<and> IPAddress_ctor gw = Inr g"
  then show "handleAdd ss s =
       (s\<lparr>table := table s @ [\<lparr>network = n, gateway = g, metric = m\<rparr>],
          cout := cout s @ ''Dodano tras'' @ [CHR 0xC4, CHR 0x99] @ ''.'' @ [CHR 0x0A],
          log := log s @ ''ADD '' @ net @ '' przez '' @ gw @ '' metryka '' @ show_int m @ [CHR 0x0A]\<rparr>,
        None)"
    using handleAdd_ok [of ss net ss1 gw ss2 m ss3 n g s] by blast
next
  assume "net \<noteq> [] \<and> (\<forall>c\<in>set net. \<not> isspace c) \<and> gw \<noteq> [] \<and> (\<forall>c\<in>set gw. \<not> isspace c) \<and>
    INT_MIN \<le> m \<and> m \<le> INT_MAX \<and>
    IPAddress_ctor net = Inr n \<and> IPAddress_ctor gw = Inr g"
  then show "handleAdd ('' '' @ net @ '' '' @ gw @ '' '' @ show_int m) s =
       (s\<lparr>table := table s @ [\<lparr>network = n, gateway = g, metric = m\<rparr>],
          cout := cout s @ ''Dodano tras'' @ [CHR 0xC4, CHR 0x99] @ ''.'' @ [CHR 0x0A],
          log := log s @ ''ADD '' @ net @ '' przez '' @ gw @ '' metryka '' @ show_int m @ [CHR 0x0A]\<rparr>,
        None)"
    using handleAdd_text [of net gw m n g s] by blast
qed

theorem handleAdd_any_metric_witness:
  "INT_MIN \<le> - 5 \<and> - 5 \<le> INT_MAX \<and> show_int (- 5) = ''-5'' \<and>
   IPAddress_ctor ''10.0.0.0/8'' = Inr \<lparr>addr = 0x0A000000, prefix = 8\<rparr> \<and>
   IPAddress_ctor ''10.0.0.1'' = Inr \<lparr>addr = 0x0A000001, prefix = 32\<rparr> \<and>
   handleAdd '' 10.0.0.0/8 10.0.0.1 -5'' \<lparr>table = [], log = [], cout = []\<rparr> =
     (\<lparr>table = [\<lparr>network = \<lparr>addr = 0x0A000000, prefix = 8\<rparr>,
                  gateway = \<lparr>addr = 0x0A000001, prefix = 32\<rparr>, metric = - 5\<rparr>],
        log = ''ADD 10.0.0.0/8 przez 10.0.0.1 metryka -5'' @ [CHR 0x0A],
        cout = ''Dodano tras'' @ [CHR 0xC4, CHR 0x99] @ ''.'' @ [CHR 0x0A]\<rparr>, None)"
proof -
  have r: "INT_MIN \<le> - 5" "- 5 \<le> INT_MAX"
    by (simp_all add: INT_MIN_def INT_MAX_def)
  have sh: "show_int (- 5) = ''-5''"
    by code_simp
  have c1: "IPAddress_ctor ''10.0.0.0/8'' = Inr \<lparr>addr = 0x0A000000, prefix = 8\<rparr>"
    by (rule ctor_examples)
  have c2: "IPAddress_ctor ''10.0.0.1'' = Inr \<lparr>addr = 0x0A000001, prefix = 32\<rparr>"
    by code_simp
  have w1: "''10.0.0.0/8'' \<noteq> []" "\<forall>c\<in>set ''10.0.0.0/8''. \<not> isspace c"
    and w2: "''10.0.0.1'' \<noteq> []" "\<forall>c\<in>set ''10.0.0.1''. \<not> isspace c"
    by (simp_all add: isspace_def)
  from handleAdd_any_metric [where net = "''10.0.0.0/8''" and gw = "''10.0.0.1''" and m = "- 5"
      and n = "\<lparr>addr = 0x0A000000, prefix = 8\<rparr>" and g = "\<lparr>addr = 0x0A000001, prefix = 32\<rparr>"
      and s = "\<lparr>table = [], log = [], cout = []\<rparr>"] r c1 c2 w1 w2
  have "handleAdd ('' '' @ ''10.0.0.0/8'' @ '' '' @ ''10.0.0.1'' @ '' '' @ show_int (- 5))
          \<lparr>table = [], log = [], cout = []\<rparr> =
        (\<lparr>table = [], log = [], cout = []\<rparr>
           \<lparr>table := table \<lparr>table = [], log = [], cout = []\<rparr> @
                [\<lparr>network = \<lparr>addr = 0x0A000000, prefix = 8\<rparr>,
                   gateway = \<lparr>addr = 0x0A000001, prefix = 32\<rparr>, metric = - 5\<rparr>],
            cout := cout \<lparr>table = [], log = [], cout = []\<rparr> @
                ''Dodano tras'' @ [CHR 0xC4, CHR 0x99] @ ''.'' @ [CHR 0x0A],
            log := log \<lparr>table = [], log = [], cout = []\<rparr> @
                ''ADD '' @ ''10.0.0.0/8'' @ '' przez '' @ ''10.0.0.1'' @ '' metryka '' @
                show_int (- 5) @ [CHR 0x0A]\<rparr>, None)"
    by blast
  then have "handleAdd '' 10.0.0.0/8 10.0.0.1 -5'' \<lparr>table = [], log = [], cout = []\<rparr> =
     (\<lparr>table = [\<lparr>network = \<lparr>addr = 0x0A000000, prefix = 8\<rparr>,
                  gateway = \<lparr>addr = 0x0A000001, prefix = 32\<rparr>, metric = - 5\<rparr>],
        log = ''ADD 10.0.0.0/8 przez 10.0.0.1 metryka -5'' @ [CHR 0x0A],
        cout = ''Dodano tras'' @ [CHR 0xC4, CHR 0x99] @ ''.'' @ [CHR 0x0A]\<rparr>, None)"
    by (simp add: sh)
  with r sh c1 c2 show ?thesis
    by simp
qed

section \<open>The table invariant along the command loop\<close>

lemma IPAddress_inv_prefix_ok: "IPAddress_inv a \<Longrightarrow> prefix_ok a"
  by (simp add: IPAddress_inv_iff)

lemma table_inv_prefix_ok: "table_inv routes \<Longrightarrow> \<forall>r\<in>set routes. prefix_ok (getNetwork r)"
  by (simp add: table_inv_def list_all_iff IPAddress_inv_prefix_ok)

lemma handleAdd_inv:
  assumes "table_inv (table s)"
  shows "table_inv (table (fst (handleAdd ss s)))"
  using assms
  by (auto simp: handleAdd_def addRoute_def table_inv_def IPAddress_ctor_inv
           split: option.splits sum.splits)

lemma handleDelete_table_filter:
  "\<exists>P. table (fst (handleDelete ss s)) = filter P (table s)"
proof (cases "extract_string ss")
  case None
  then have "table (fst (handleDelete ss s)) = filter (\<lambda>_. True) (table s)"
    by (simp add: handleDelete_def)
  then show ?thesis
    by (rule exI [where x = "\<lambda>_. True"])
next
  case (Some a)
  obtain net rest where a: "a = (net, rest)"
    by (cases a)
  show ?thesis
  proof (cases "IPAddress_ctor net")
    case (Inl e)
    with Some a have "table (fst (handleDelete ss s)) = filter (\<lambda>_. True) (table s)"
      by (simp add: handleDelete_def)
    then show ?thesis
      by (rule exI [where x = "\<lambda>_. True"])
  next
    case (Inr n)
    with Some a have "table (fst (handleDelete ss s)) = filter (\<lambda>r. getNetwork r \<noteq> n) (table s)"
      by (simp add: handleDelete_table)
    then show ?thesis
      by (rule exI [where x = "\<lambda>r. getNetwork r \<noteq> n"])
  qed
qed

lemma handleDelete_inv:
  assumes "table_inv (table s)"
  shows "table_inv (table (fst (handleDelete ss s)))"
proof -
  obtain P where "table (fst (handleDelete ss s)) = filter P (table s)"
    using handleDelete_table_filter by blast
  with assms show ?thesis
    by (simp add: table_inv_def list_all_iff)
qed

lemma exec_line_inv:
  assumes "table_inv (table s)"
  shows "table_inv (table (exec_line srt cmd s))"
  using assms handleAdd_inv [of s "args_of cmd"] handleDelete_inv [of s "args_of cmd"]
    handleSend_table [of "args_of cmd" s]
  by (simp add: exec_line_def Let_def try_catch_table_log printHelp_def)

lemma run_loop_inv:
  assumes "table_inv (table s)"
  shows "table_inv (table (run_loop srt stdin s))"
  using assms
proof (induction stdin arbitrary: s)
  case Nil
  then show ?case by simp
next
  case (Cons cmd rest)
  let ?s1 = "s\<lparr>cout := cout s @ [CHR 0x0A] @ ''> ''\<rparr>"
  from Cons.prems have "table_inv (table ?s1)"
    by simp
  then have "table_inv (table (exec_line srt cmd ?s1))"
    by (rule exec_line_inv)
  then have "table_inv (table (run_loop srt rest (exec_line srt cmd ?s1)))"
    by (rule Cons.IH)
  with Cons.prems show ?case
    by (simp add: Let_def)
qed

lemma run_inv: "table_inv (table (run srt stdin))"
  unfolding run_def by (rule run_loop_inv) (simp add: printHelp_def table_inv_def)

section \<open>Forwarding and failing commands\<close>

lemma handleSend_ok:
  assumes "extract_string ss = Some (src, ss1)" and "extract_string ss1 = Some (dst, ss2)"
    and "extract_string ss2 = Some (proto, ss3)"
    and "IPAddress_ctor src = Inr sa" and "IPAddress_ctor dst = Inr da"
    and "findRoute (table s) da = Inr res"
  shows "handleSend ss s =
       (s\<lparr>cout := cout s @ Packet_toString \<lparr>source = sa, destination = da, protocol = proto\<rparr> @ [CHR 0x0A] @
                (case res of
                   Some r \<Rightarrow> ''Przekazuj'' @ [CHR 0xC4, CHR 0x99] @ '' pakiet przez bram'' @ [CHR 0xC4, CHR 0x99] @ '': '' @
                     IPAddress_toString (getGateway r) @ [CHR 0x0A]
                 | None \<Rightarrow> ''Pakiet zosta'' @ [CHR 0xC5, CHR 0x82] @ '' odrzucony (brak odpowiedniej trasy).'' @ [CHR 0x0A]),
          log := log s @
                (case res of
                   Some r \<Rightarrow> ''FWD '' @ Packet_toString \<lparr>source = sa, destination = da, protocol = proto\<rparr> @
                             '' przez '' @ IPAddress_toString (getGateway r) @ [CHR 0x0A]
                 | None \<Rightarrow> ''DROP '' @ Packet_toString \<lparr>source = sa, destination = da, protocol = proto\<rparr> @
                           [CHR 0x0A])\<rparr>,
        None)"
  using assms by (cases res) (simp_all add: handleSend_def Let_def)

text \<open>
  C9. The forwarding decision of \<^verbatim>\<open>handleSend\<close>. The handler never changes the table.
  Once its three arguments are read and both addresses parse, on a table whose networks
  have prefix lengths within 0..32, the lookup of the destination returns and the handler
  throws nothing: when the lookup gives a route, it reports and logs \<^verbatim>\<open>FWD\<close> with the
  gateway of that route; when it gives none, it reports and logs \<^verbatim>\<open>DROP\<close>. Every table
  the command loop builds is such a table.
\<close>

theorem handleSend_forward_or_drop:
  "table (fst (handleSend ss s)) = table s \<and>
   (extract_string ss = Some (src, ss1) \<and> extract_string ss1 = Some (dst, ss2) \<and>
    extract_string ss2 = Some (proto, ss3) \<and>
    IPAddress_ctor src = Inr sa \<and> IPAddress_ctor dst = Inr da \<and>
    (\<forall>r\<in>set (table s). prefix_ok (getNetwork r)) \<longrightarrow>
      (\<exists>res. findRoute (table s) da = Inr res \<and>
         handleSend ss s =
       (s\<lparr>cout := cout s @ Packet_toString \<lparr>source = sa, destination = da, protocol = proto\<rparr> @ [CHR 0x0A] @
                (case res of
                   Some r \<Rightarrow> ''Przekazuj'' @ [CHR 0xC4, CHR 0x99] @ '' pakiet przez bram'' @ [CHR 0xC4, CHR 0x99] @ '': '' @
                     IPAddress_toString (getGateway r) @ [CHR 0x0A]
                 | None \<Rightarrow> ''Pakiet zosta'' @ [CHR 0xC5, CHR 0x82] @ '' odrzucony (brak odpowiedniej trasy).'' @ [CHR 0x0A]),
          log := log s @
                (case res of
                   Some r \<Rightarrow> ''FWD '' @ Packet_toString \<lparr>source = sa, destination = da, protocol = proto\<rparr> @
                             '' przez '' @ IPAddress_toString (getGateway r) @ [CHR 0x0A]
                 | None \<Rightarrow> ''DROP '' @ Packet_toString \<lparr>source = sa, destination = da, protocol = proto\<rparr> @
                           [CHR 0x0A])\<rparr>,
        None))) \<and>
   (\<forall>r\<in>set (table (run srt stdin)). prefix_ok (getNetwork r))"
proof (intro conjI impI)
  show "table (fst (handleSend ss s)) = table s"
    by (rule handleSend_table)
next
  assume h: "extract_string ss = Some (src, ss1) \<and> extract_string ss1 = Some (dst, ss2) \<and>
    extract_string ss2 = Some (proto, ss3) \<and>
    IPAddress_ctor src = Inr sa \<and> IPAddress_ctor dst = Inr da \<and>
    (\<forall>r\<in>set (table s). prefix_ok (getNetwork r))"
  then have "\<forall>r\<in>set (table s). prefix_ok (getNetwork r)"
    by simp
  then obtain res where res: "findRoute (table s) da = Inr res"
    using findRoute_find by blast
  have "handleSend ss s =
       (s\<lparr>cout := cout s @ Packet_toString \<lparr>source = sa, destination = da, protocol = proto\<rparr> @ [CHR 0x0A] @
                (case res of
                   Some r \<Rightarrow> ''Przekazuj'' @ [CHR 0xC4, CHR 0x99] @ '' pakiet przez bram'' @ [CHR 0xC4, CHR 0x99] @ '': '' @
                     IPAddress_toString (getGateway r) @ [CHR 0x0A]
                 | None \<Rightarrow> ''Pakiet zosta'' @ [CHR 0xC5, CHR 0x82] @ '' odrzucony (brak odpowiedniej trasy).'' @ [CHR 0x0A]),
          log := log s @
                (case res of
                   Some r \<Rightarrow> ''FWD '' @ Packet_toString \<lparr>source = sa, destination = da, protocol = proto\<rparr> @
                             '' przez '' @ IPAddress_toString (getGateway r) @ [CHR 0x0A]
                 | None \<Rightarrow> ''DROP '' @ Packet_toString \<lparr>source = sa, destination = da, protocol = proto\<rparr> @
                           [CHR 0x0A])\<rparr>,
        None)"
    using h res handleSend_ok [of ss src ss1 dst ss2 proto ss3 sa da s res] by blast
  with res show "\<exists>res. findRoute (table s) da = Inr res \<and>
         handleSend ss s =
       (s\<lparr>cout := cout s @ Packet_toString \<lparr>source = sa, destination = da, protocol = proto\<rparr> @ [CHR 0x0A] @
                (case res of
                   Some r \<Rightarrow> ''Przekazuj'' @ [CHR 0xC4, CHR 0x99] @ '' pakiet przez bram'' @ [CHR 0xC4, CHR 0x99] @ '': '' @
                     IPAddress_toString (getGateway r) @ [CHR 0x0A]
                 | None \<Rightarrow> ''Pakiet zosta'' @ [CHR 0xC5, CHR 0x82] @ '' odrzucony (brak odpowiedniej trasy).'' @ [CHR 0x0A]),
          log := log s @
                (case res of
                   Some r \<Rightarrow> ''FWD '' @ Packet_toString \<lparr>source = sa, destination = da, protocol = proto\<rparr> @
                             '' przez '' @ IPAddress_toString (getGateway r) @ [CHR 0x0A]
                 | None \<Rightarrow> ''DROP '' @ Packet_toString \<lparr>source = sa, destination = da, protocol = proto\<rparr> @
                           [CHR 0x0A])\<rparr>,
        None)"
    by blast
next
  show "\<forall>r\<in>set (table (run srt stdin)). prefix_ok (getNetwork r)"
    by (rule table_inv_prefix_ok) (rule run_inv)
qed


theorem handleSend_forward_or_drop_witness:
  "extract_string '' 1.1.1.1 10.1.2.3 X'' = Some (''1.1.1.1'', '' 10.1.2.3 X'') \<and>
   extract_string '' 10.1.2.3 X'' = Some (''10.1.2.3'', '' X'') \<and>
   extract_string '' X'' = Some (''X'', []) \<and>
   IPAddress_ctor ''1.1.1.1'' = Inr \<lparr>addr = 0x01010101, prefix = 32\<rparr> \<and>
   IPAddress_ctor ''10.1.2.3'' = Inr \<lparr>addr = 0x0A010203, prefix = 32\<rparr> \<and>
   prefix_ok \<lparr>addr = 0x0A000000, prefix = 8\<rparr> \<and> prefix_ok \<lparr>addr = 0x0A010000, prefix = 16\<rparr> \<and>
   handleSend '' 1.1.1.1 10.1.2.3 X''
     \<lparr>table = [\<lparr>network = \<lparr>addr = 0x0A000000, prefix = 8\<rparr>,
                  gateway = \<lparr>addr = 0x0A000001, prefix = 32\<rparr>, metric = 5\<rparr>,
                \<lparr>network = \<lparr>addr = 0x0A010000, prefix = 16\<rparr>,
                  gateway = \<lparr>addr = 0x0A010001, prefix = 32\<rparr>, metric = 1\<rparr>],
      log = [], cout = []\<rparr> =
     (\<lparr>table = [\<lparr>network = \<lparr>addr = 0x0A000000, prefix = 8\<rparr>,
                  gateway = \<lparr>addr = 0x0A000001, prefix = 32\<rparr>, metric = 5\<rparr>,
                \<lparr>network = \<lparr>addr = 0x0A010000, prefix = 16\<rparr>,
                  gateway = \<lparr>addr = 0x0A010001, prefix = 32\<rparr>, metric = 1\<rparr>],
        log = ''FWD Pakiet od 1.1.1.1/32 do 10.1.2.3/32 [X] przez 10.1.0.1/32'' @ [CHR 0x0A],
        cout = ''Pakiet od 1.1.1.1/32 do 10.1.2.3/32 [X]'' @ [CHR 0x0A] @
               ''Przekazuj'' @ [CHR 0xC4, CHR 0x99] @ '' pakiet przez bram'' @ [CHR 0xC4, CHR 0x99] @
               '': 10.1.0.1/32'' @ [CHR 0x0A]\<rparr>,
      None)"
proof -
  let ?r1 = "\<lparr>network = \<lparr>addr = 0x0A000000, prefix = 8\<rparr>,
               gateway = \<lparr>addr = 0x0A000001, prefix = 32\<rparr>, metric = 5\<rparr>"
  let ?r2 = "\<lparr>network = \<lparr>addr = 0x0A010000, prefix = 16\<rparr>,
               gateway = \<lparr>addr = 0x0A010001, prefix = 32\<rparr>, metric = 1\<rparr>"
  let ?s = "\<lparr>table = [?r1, ?r2], log = [], cout = []\<rparr>"
  let ?sa = "\<lparr>addr = 0x01010101, prefix = 32\<rparr>"
  let ?da = "\<lparr>addr = 0x0A010203, prefix = 32\<rparr>"
  have e1: "extract_string '' 1.1.1.1 10.1.2.3 X'' = Some (''1.1.1.1'', '' 10.1.2.3 X'')"
    and e2: "extract_string '' 10.1.2.3 X'' = Some (''10.1.2.3'', '' X'')"
    and e3: "extract_string '' X'' = Some (''X'', [])"
    by code_simp+
  have c1: "IPAddress_ctor ''1.1.1.1'' = Inr ?sa"
    by code_simp
  have c2: "IPAddress_ctor ''10.1.2.3'' = Inr ?da"
    by (rule ctor_examples)
  have p1: "prefix_ok \<lparr>addr = 0x0A000000, prefix = 8\<rparr>"
    and p2: "prefix_ok \<lparr>addr = 0x0A010000, prefix = 16\<rparr>"
    by (simp_all add: prefix_ok_def)
  then have ok: "\<forall>r\<in>set (table ?s). prefix_ok (getNetwork r)"
    by simp
  have pk: "Packet_toString \<lparr>source = ?sa, destination = ?da, protocol = ''X''\<rparr> =
            ''Pakiet od 1.1.1.1/32 do 10.1.2.3/32 [X]''"
    by code_simp
  have gs: "IPAddress_toString \<lparr>addr = 0x0A010001, prefix = 32\<rparr> = ''10.1.0.1/32''"
    by code_simp
  have fr: "findRoute [?r1, ?r2] ?da = Inr (Some ?r2)"
    by (rule lpm_examples)
  from handleSend_forward_or_drop [where ss = "'' 1.1.1.1 10.1.2.3 X''" and s = ?s
      and src = "''1.1.1.1''" and ?ss1.0 = "'' 10.1.2.3 X''" and dst = "''10.1.2.3''"
      and ?ss2.0 = "'' X''" and proto = "''X''" and ?ss3.0 = "[]" and sa = ?sa and da = ?da]
    e1 e2 e3 c1 c2 ok
  obtain res where res: "findRoute (table ?s) ?da = Inr res"
    and hs: "handleSend '' 1.1.1.1 10.1.2.3 X'' ?s =
       (?s\<lparr>cout := cout ?s @ Packet_toString \<lparr>source = ?sa, destination = ?da, protocol = ''X''\<rparr> @ [CHR 0x0A] @
                (case res of
                   Some r \<Rightarrow> ''Przekazuj'' @ [CHR 0xC4, CHR 0x99] @ '' pakiet przez bram'' @ [CHR 0xC4, CHR 0x99] @ '': '' @
                     IPAddress_toString (getGateway r) @ [CHR 0x0A]
                 | None \<Rightarrow> ''Pakiet zosta'' @ [CHR 0xC5, CHR 0x82] @ '' odrzucony (brak odpowiedniej trasy).'' @ [CHR 0x0A]),
          log := log ?s @
                (case res of
                   Some r \<Rightarrow> ''FWD '' @ Packet_toString \<lparr>source = ?sa, destination = ?da, protocol = ''X''\<rparr> @
                             '' przez '' @ IPAddress_toString (getGateway r) @ [CHR 0x0A]
                 | None \<Rightarrow> ''DROP '' @ Packet_toString \<lparr>source = ?sa, destination = ?da, protocol = ''X''\<rparr> @
                           [CHR 0x0A])\<rparr>,
        None)"
    by blast
  from res fr have "res = Some ?r2"
    by simp
  with hs have "handleSend '' 1.1.1.1 10.1.2.3 X'' ?s =
     (\<lparr>table = [?r1, ?r2],
        log = ''FWD Pakiet od 1.1.1.1/32 do 10.1.2.3/32 [X] przez 10.1.0.1/32'' @ [CHR 0x0A],
        cout = ''Pakiet od 1.1.1.1/32 do 10.1.2.3/32 [X]'' @ [CHR 0x0A] @
               ''Przekazuj'' @ [CHR 0xC4, CHR 0x99] @ '' pakiet przez bram'' @ [CHR 0xC4, CHR 0x99] @
               '': 10.1.0.1/32'' @ [CHR 0x0A]\<rparr>,
      None)"
    by (simp add: pk gs)
  with e1 e2 e3 c1 c2 p1 p2 show ?thesis
    by simp
qed

text \<open>
  C8. A command that throws leaves the table and the log as they were: each of
  \<^verbatim>\<open>handleAdd\<close>, \<^verbatim>\<open>handleDelete\<close> and \<^verbatim>\<open>handleSend\<close>, when it throws (whatever the
  exception), has changed neither, and so has the loop body that ran it and caught the
  exception.
\<close>

theorem failed_command_keeps_table_and_log:
  "(snd (handleAdd ss s) = Some e \<longrightarrow>
      table (fst (handleAdd ss s)) = table s \<and> log (fst (handleAdd ss s)) = log s) \<and>
   (snd (handleDelete ss s) = Some e \<longrightarrow>
      table (fst (handleDelete ss s)) = table s \<and> log (fst (handleDelete ss s)) = log s) \<and>
   (snd (handleSend ss s) = Some e \<longrightarrow>
      table (fst (handleSend ss s)) = table s \<and> log (fst (handleSend ss s)) = log s) \<and>
   (op_of cmd = ''add'' \<and> snd (handleAdd (args_of cmd) s) = Some e \<longrightarrow>
      table (exec_line srt cmd s) = table s \<and> log (exec_line srt cmd s) = log s) \<and>
   (op_of cmd = ''del'' \<and> snd (handleDelete (args_of cmd) s) = Some e \<longrightarrow>
      table (exec_line srt cmd s) = table s \<and> log (exec_line srt cmd s) = log s) \<and>
   (op_of cmd = ''send'' \<and> snd (handleSend (args_of cmd) s) = Some e \<longrightarrow>
      table (exec_line srt cmd s) = table s \<and> log (exec_line srt cmd s) = log s)"
proof (intro conjI impI)
  assume "snd (handleAdd ss s) = Some e"
  then show "table (fst (handleAdd ss s)) = table s" "log (fst (handleAdd ss s)) = log s"
    by (simp_all add: handleAdd_error)
next
  assume "snd (handleDelete ss s) = Some e"
  then show "table (fst (handleDelete ss s)) = table s" "log (fst (handleDelete ss s)) = log s"
    by (simp_all add: handleDelete_error)
next
  assume "snd (handleSend ss s) = Some e"
  then show "log (fst (handleSend ss s)) = log s"
    by (rule handleSend_error)
  show "table (fst (handleSend ss s)) = table s"
    by (rule handleSend_table)
next
  assume "op_of cmd = ''add'' \<and> snd (handleAdd (args_of cmd) s) = Some e"
  then show "table (exec_line srt cmd s) = table s" "log (exec_line srt cmd s) = log s"
    by (simp_all add: exec_line_def try_catch_table_log handleAdd_error)
next
  assume "op_of cmd = ''del'' \<and> snd (handleDelete (args_of cmd) s) = Some e"
  then show "table (exec_line srt cmd s) = table s" "log (exec_line srt cmd s) = log s"
    by (simp_all add: exec_line_def try_catch_table_log handleDelete_error)
next
  assume "op_of cmd = ''send'' \<and> snd (handleSend (args_of cmd) s) = Some e"
  then show "table (exec_line srt cmd s) = table s" "log (exec_line srt cmd s) = log s"
    by (simp_all add: exec_line_def try_catch_table_log handleSend_error handleSend_table)
qed


theorem failed_command_keeps_table_and_log_witness:
  "snd (handleAdd '' 10.0.0.0/33 10.0.0.1 5'' \<lparr>table = [\<lparr>network = \<lparr>addr = 0x0A000000, prefix = 8\<rparr>,
                  gateway = \<lparr>addr = 0x0A000001, prefix = 32\<rparr>, metric = 5\<rparr>],
      log = ''ADD 10.0.0.0/8 przez 10.0.0.1 metryka 5'' @ [CHR 0x0A], cout = []\<rparr>) = Some InvalidPrefixError \<and>
   table (fst (handleAdd '' 10.0.0.0/33 10.0.0.1 5'' \<lparr>table = [\<lparr>network = \<lparr>addr = 0x0A000000, prefix = 8\<rparr>,
                  gateway = \<lparr>addr = 0x0A000001, prefix = 32\<rparr>, metric = 5\<rparr>],
      log = ''ADD 10.0.0.0/8 przez 10.0.0.1 metryka 5'' @ [CHR 0x0A], cout = []\<rparr>)) = [\<lparr>network = \<lparr>addr = 0x0A000000, prefix = 8\<rparr>,
        gateway = \<lparr>addr = 0x0A000001, prefix = 32\<rparr>, metric = 5\<rparr>] \<and>
   log (fst (handleAdd '' 10.0.0.0/33 10.0.0.1 5'' \<lparr>table = [\<lparr>network = \<lparr>addr = 0x0A000000, prefix = 8\<rparr>,
                  gateway = \<lparr>addr = 0x0A000001, prefix = 32\<rparr>, metric = 5\<rparr>],
      log = ''ADD 10.0.0.0/8 przez 10.0.0.1 metryka 5'' @ [CHR 0x0A], cout = []\<rparr>)) = ''ADD 10.0.0.0/8 przez 10.0.0.1 metryka 5'' @ [CHR 0x0A] \<and>
   snd (handleDelete '' 10.0.0/8'' \<lparr>table = [\<lparr>network = \<lparr>addr = 0x0A000000, prefix = 8\<rparr>,
                  gateway = \<lparr>addr = 0x0A000001, prefix = 32\<rparr>, metric = 5\<rparr>],
      log = ''ADD 10.0.0.0/8 przez 10.0.0.1 metryka 5'' @ [CHR 0x0A], cout = []\<rparr>) = Some (ParseError ''10.0.0'') \<and>
   table (fst (handleDelete '' 10.0.0/8'' \<lparr>table = [\<lparr>network = \<lparr>addr = 0x0A000000, prefix = 8\<rparr>,
                  gateway = \<lparr>addr = 0x0A000001, prefix = 32\<rparr>, metric = 5\<rparr>],
      log = ''ADD 10.0.0.0/8 przez 10.0.0.1 metryka 5'' @ [CHR 0x0A], cout = []\<rparr>)) = [\<lparr>network = \<lparr>addr = 0x0A000000, prefix = 8\<rparr>,
        gateway = \<lparr>addr = 0x0A000001, prefix = 32\<rparr>, metric = 5\<rparr>] \<and>
   log (fst (handleDelete '' 10.0.0/8'' \<lparr>table = [\<lparr>network = \<lparr>addr = 0x0A000000, prefix = 8\<rparr>,
                  gateway = \<lparr>addr = 0x0A000001, prefix = 32\<rparr>, metric = 5\<rparr>],
      log = ''ADD 10.0.0.0/8 przez 10.0.0.1 metryka 5'' @ [CHR 0x0A], cout = []\<rparr>)) = ''ADD 10.0.0.0/8 przez 10.0.0.1 metryka 5'' @ [CHR 0x0A] \<and>
   snd (handleSend '' 1.1.1.1 10.0.0.x ICMP'' \<lparr>table = [\<lparr>network = \<lparr>addr = 0x0A000000, prefix = 8\<rparr>,
                  gateway = \<lparr>addr = 0x0A000001, prefix = 32\<rparr>, metric = 5\<rparr>],
      log = ''ADD 10.0.0.0/8 przez 10.0.0.1 metryka 5'' @ [CHR 0x0A], cout = []\<rparr>) = Some (ParseError ''10.0.0.x'') \<and>
   table (fst (handleSend '' 1.1.1.1 10.0.0.x ICMP'' \<lparr>table = [\<lparr>network = \<lparr>addr = 0x0A000000, prefix = 8\<rparr>,
                  gateway = \<lparr>addr = 0x0A000001, prefix = 32\<rparr>, metric = 5\<rparr>],
      log = ''ADD 10.0.0.0/8 przez 10.0.0.1 metryka 5'' @ [CHR 0x0A], cout = []\<rparr>)) = [\<lparr>network = \<lparr>addr = 0x0A000000, prefix = 8\<rparr>,
        gateway = \<lparr>addr = 0x0A000001, prefix = 32\<rparr>, metric = 5\<rparr>] \<and>
   log (fst (handleSend '' 1.1.1.1 10.0.0.x ICMP'' \<lparr>table = [\<lparr>network = \<lparr>addr = 0x0A000000, prefix = 8\<rparr>,
                  gateway = \<lparr>addr = 0x0A000001, prefix = 32\<rparr>, metric = 5\<rparr>],
      log = ''ADD 10.0.0.0/8 przez 10.0.0.1 metryka 5'' @ [CHR 0x0A], cout = []\<rparr>)) = ''ADD 10.0.0.0/8 przez 10.0.0.1 metryka 5'' @ [CHR 0x0A] \<and>
   op_of ''add 10.0.0.0/33 10.0.0.1 5'' = ''add'' \<and>
   args_of ''add 10.0.0.0/33 10.0.0.1 5'' = '' 10.0.0.0/33 10.0.0.1 5'' \<and>
   table (exec_line (\<lambda>lt xs. xs) ''add 10.0.0.0/33 10.0.0.1 5'' \<lparr>table = [\<lparr>network = \<lparr>addr = 0x0A000000, prefix = 8\<rparr>,
                  gateway = \<lparr>addr = 0x0A000001, prefix = 32\<rparr>, metric = 5\<rparr>],
      log = ''ADD 10.0.0.0/8 przez 10.0.0.1 metryka 5'' @ [CHR 0x0A], cout = []\<rparr>) = [\<lparr>network = \<lparr>addr = 0x0A000000, prefix = 8\<rparr>,
        gateway = \<lparr>addr = 0x0A000001, prefix = 32\<rparr>, metric = 5\<rparr>] \<and>
   log (exec_line (\<lambda>lt xs. xs) ''add 10.0.0.0/33 10.0.0.1 5'' \<lparr>table = [\<lparr>network = \<lparr>addr = 0x0A000000, prefix = 8\<rparr>,
                  gateway = \<lparr>addr = 0x0A000001, prefix = 32\<rparr>, metric = 5\<rparr>],
      log = ''ADD 10.0.0.0/8 przez 10.0.0.1 metryka 5'' @ [CHR 0x0A], cout = []\<rparr>) = ''ADD 10.0.0.0/8 przez 10.0.0.1 metryka 5'' @ [CHR 0x0A]"
proof -
  let ?s = "\<lparr>table = [\<lparr>network = \<lparr>addr = 0x0A000000, prefix = 8\<rparr>,
                  gateway = \<lparr>addr = 0x0A000001, prefix = 32\<rparr>, metric = 5\<rparr>],
      log = ''ADD 10.0.0.0/8 przez 10.0.0.1 metryka 5'' @ [CHR 0x0A], cout = []\<rparr>"
  have a: "snd (handleAdd '' 10.0.0.0/33 10.0.0.1 5'' ?s) = Some InvalidPrefixError"
    by code_simp
  have d: "snd (handleDelete '' 10.0.0/8'' ?s) = Some (ParseError ''10.0.0'')"
    by code_simp
  have sd: "snd (handleSend '' 1.1.1.1 10.0.0.x ICMP'' ?s) = Some (ParseError ''10.0.0.x'')"
    by code_simp
  have op: "op_of ''add 10.0.0.0/33 10.0.0.1 5'' = ''add''"
    and args: "args_of ''add 10.0.0.0/33 10.0.0.1 5'' = '' 10.0.0.0/33 10.0.0.1 5''"
    by code_simp+
  have ta: "table (fst (handleAdd '' 10.0.0.0/33 10.0.0.1 5'' ?s)) = table ?s \<and>
            log (fst (handleAdd '' 10.0.0.0/33 10.0.0.1 5'' ?s)) = log ?s"
    using failed_command_keeps_table_and_log
      [where ss = "'' 10.0.0.0/33 10.0.0.1 5''" and s = ?s and e = InvalidPrefixError] a
    by blast
  have td: "table (fst (handleDelete '' 10.0.0/8'' ?s)) = table ?s \<and>
            log (fst (handleDelete '' 10.0.0/8'' ?s)) = log ?s"
    using failed_command_keeps_table_and_log
      [where ss = "'' 10.0.0/8''" and s = ?s and e = "ParseError ''10.0.0''"] d
    by blast
  have ts: "table (fst (handleSend '' 1.1.1.1 10.0.0.x ICMP'' ?s)) = table ?s \<and>
            log (fst (handleSend '' 1.1.1.1 10.0.0.x ICMP'' ?s)) = log ?s"
    using failed_command_keeps_table_and_log
      [where ss = "'' 1.1.1.1 10.0.0.x ICMP''" and s = ?s and e = "ParseError ''10.0.0.x''"] sd
    by blast
  have te: "table (exec_line (\<lambda>lt xs. xs) ''add 10.0.0.0/33 10.0.0.1 5'' ?s) = table ?s \<and>
            log (exec_line (\<lambda>lt xs. xs) ''add 10.0.0.0/33 10.0.0.1 5'' ?s) = log ?s"
    using failed_command_keeps_table_and_log
      [where cmd = "''add 10.0.0.0/33 10.0.0.1 5''" and s = ?s and e = InvalidPrefixError
        and srt = "\<lambda>lt xs. xs"] a op args
    by simp
  from a d sd op args ta td ts te show ?thesis
    by simp
qed

section \<open>Address text\<close>

lemma scanf_d_int:
  assumes "INT_MIN \<le> v" and "v \<le> INT_MAX"
  shows "scanf_d v = v"
proof -
  from assms have v: "- (2 ^ 31) \<le> v" "v < 2 ^ 31"
    by (simp_all add: INT_MIN_def INT_MAX_def)
  then have "max LONG_MIN (min LONG_MAX v) = v"
    by (simp add: LONG_MIN_def LONG_MAX_def)
  moreover have "sint (word_of_int v :: 32 word) = v"
    using v by (simp add: sint_sbintrunc' signed_take_bit_int_eq_self)
  ultimately show ?thesis
    by (simp add: scanf_d_def)
qed

lemma scanf_d_nat:
  assumes "a < 2 ^ 31"
  shows "scanf_d (int a) = int a"
proof (rule scanf_d_int)
  show "INT_MIN \<le> int a"
    by (simp add: INT_MIN_def)
  from assms have "int a < 2 ^ 31"
    by (metis of_nat_less_iff of_nat_numeral of_nat_power)
  then show "int a \<le> INT_MAX"
    by (simp add: INT_MAX_def)
qed

lemma not_isdigit_dot: "\<not> isdigit CHR ''.''" and not_isdigit_slash: "\<not> isdigit CHR ''/''"
  by (simp_all add: isdigit_def)

lemma sscanf_dotted_step:
  "sscanf_dotted (Suc (Suc n)) (show_nat a @ CHR ''.'' # tl0) =
     scanf_d (int a) # sscanf_dotted (Suc n) tl0"
proof -
  have "scan_decimal (show_nat a @ CHR ''.'' # tl0) = Some (int a, CHR ''.'' # tl0)"
    by (rule scan_decimal_show_nat) (simp add: not_isdigit_dot)
  then show ?thesis
    by simp
qed

lemma sscanf_dotted_last:
  assumes "rest = [] \<or> \<not> isdigit (hd rest)"
  shows "sscanf_dotted (Suc 0) (show_nat a @ rest) = [scanf_d (int a)]"
  using scan_decimal_show_nat [OF assms, of a] by simp

lemma sscanf_dotted_quad:
  assumes "rest = [] \<or> \<not> isdigit (hd rest)"
  shows "sscanf_dotted 4 (show_nat a @ ''.'' @ show_nat b @ ''.'' @ show_nat c @ ''.'' @ show_nat d @ rest) =
         [scanf_d (int a), scanf_d (int b), scanf_d (int c), scanf_d (int d)]"
proof -
  have 4: "(4::nat) = Suc (Suc (Suc (Suc 0)))"
    by simp
  show ?thesis
    unfolding 4 using sscanf_dotted_last [OF assms, of d]
    by (simp add: sscanf_dotted_step del: sscanf_dotted.simps)
qed

lemma quad_chars_dotted:
  "quad_chars (show_nat a @ ''.'' @ show_nat b @ ''.'' @ show_nat c @ ''.'' @ show_nat d)"
  using show_nat_digits [of a] show_nat_digits [of b] show_nat_digits [of c] show_nat_digits [of d]
  by (auto simp: quad_chars_def)

lemma quad_chars_nonzero:
  assumes "quad_chars s" and "c \<in> set s"
  shows "of_char c \<noteq> (0::nat)"
proof -
  from assms have "isdigit c \<or> c = CHR ''.''"
    unfolding quad_chars_def by blast
  then show ?thesis
  proof
    assume "isdigit c"
    then show ?thesis
      by (rule isdigit_not_special(6))
  next
    assume "c = CHR ''.''"
    then show ?thesis
      by simp
  qed
qed

lemma quad_chars_c_str:
  assumes "quad_chars s"
  shows "c_str s = s"
proof -
  have "\<forall>c\<in>set s. of_char c \<noteq> (0::nat)"
    using quad_chars_nonzero [OF assms] by blast
  then show ?thesis
    unfolding c_str_def takeWhile_eq_all_conv .
qed

lemma quad_chars_no_slash:
  assumes "quad_chars s"
  shows "CHR ''/'' \<notin> set s"
proof
  assume "CHR ''/'' \<in> set s"
  with assms have "isdigit CHR ''/'' \<or> CHR ''/'' = CHR ''.''"
    unfolding quad_chars_def by blast
  then show False
    by (simp add: isdigit_def)
qed

lemma quad_chars_find:
  assumes "quad_chars s"
  shows "find_char CHR ''/'' s = None"
    and "find_char CHR ''/'' (s @ CHR ''/'' # r) = Some (length s)"
proof -
  note ns = quad_chars_no_slash [OF assms]
  then show "find_char CHR ''/'' s = None"
    by (simp add: find_char_def)
  from ns have "\<forall>x\<in>set s. x \<noteq> CHR ''/''"
    by blast
  then have "takeWhile (\<lambda>x. x \<noteq> CHR ''/'') (s @ CHR ''/'' # r) = s"
    by simp
  then show "find_char CHR ''/'' (s @ CHR ''/'' # r) = Some (length s)"
    by (simp add: find_char_def)
qed

lemma c_str_show_int: "c_str (show_int p) = show_int p"
proof -
  have "of_char c \<noteq> (0::nat)" if "c \<in> set (show_nat n)" for c n
    using that show_nat_digits [of n] isdigit_not_special(6) [of c] by blast
  then have "c_str (show_nat n) = show_nat n" for n
    by (simp add: c_str_def)
  then show ?thesis
    by (simp add: show_int_def c_str_def)
qed

lemma stoi_show_int:
  assumes "INT_MIN \<le> p" and "p \<le> INT_MAX"
  shows "stoi (show_int p) = Inr p"
  using assms scan_decimal_show_int [of "[]" p]
  by (simp add: stoi_def c_str_show_int)

lemma sscanf_dotted_quad_only:
  "sscanf_dotted 4 (show_nat a @ ''.'' @ show_nat b @ ''.'' @ show_nat c @ ''.'' @ show_nat d) =
         [scanf_d (int a), scanf_d (int b), scanf_d (int c), scanf_d (int d)]"
proof -
  have "show_nat d @ [] = show_nat d"
    by simp
  with sscanf_dotted_quad [of "[]" a b c d] show ?thesis
    by (simp only: append_Nil2 simp_thms)
qed

lemma ipToUint_quad:
  "ipToUint (show_nat a @ ''.'' @ show_nat b @ ''.'' @ show_nat c @ ''.'' @ show_nat d) =
   Inr (push_bit 24 (word_of_int (scanf_d (int a))) OR push_bit 16 (word_of_int (scanf_d (int b))) OR
        push_bit 8 (word_of_int (scanf_d (int c))) OR word_of_int (scanf_d (int d)))"
proof -
  let ?s = "show_nat a @ ''.'' @ show_nat b @ ''.'' @ show_nat c @ ''.'' @ show_nat d"
  have cs: "c_str ?s = ?s"
    by (rule quad_chars_c_str) (rule quad_chars_dotted)
  have sc: "sscanf_dotted 4 ?s = [scanf_d (int a), scanf_d (int b), scanf_d (int c), scanf_d (int d)]"
    by (rule sscanf_dotted_quad_only)
  have "ipToUint ?s = (case sscanf_dotted 4 (c_str ?s) of
        [p0, p1, p2, p3] \<Rightarrow>
          Inr (push_bit 24 (word_of_int p0) OR push_bit 16 (word_of_int p1)
               OR push_bit 8 (word_of_int p2) OR word_of_int p3)
      | _ \<Rightarrow> Inl (ParseError ?s))"
    by (rule ipToUint_def)
  also have "\<dots> = (case [scanf_d (int a), scanf_d (int b), scanf_d (int c), scanf_d (int d)] of
        [p0, p1, p2, p3] \<Rightarrow>
          Inr (push_bit 24 (word_of_int p0) OR push_bit 16 (word_of_int p1)
               OR push_bit 8 (word_of_int p2) OR word_of_int p3)
      | _ \<Rightarrow> Inl (ParseError ?s))"
    by (simp only: cs sc)
  also have "\<dots> = Inr (push_bit 24 (word_of_int (scanf_d (int a))) OR push_bit 16 (word_of_int (scanf_d (int b))) OR
        push_bit 8 (word_of_int (scanf_d (int c))) OR word_of_int (scanf_d (int d)))"
    by (simp only: list.case)
  finally show ?thesis .
qed





lemma IPAddress_ctor_no_slash:
  assumes "find_char CHR ''/'' cidr = None"
  shows "IPAddress_ctor cidr =
     (case ipToUint cidr of Inl e \<Rightarrow> Inl e | Inr raw \<Rightarrow> Inr \<lparr>addr = raw, prefix = 32\<rparr>)"
proof -
  have "maskFromPrefix 32 = Inr (- 1)"
    by (simp add: maskFromPrefix_def)
  with assms show ?thesis
    by (simp add: IPAddress_ctor_def split: sum.split)
qed

lemma IPAddress_ctor_slash:
  assumes "find_char CHR ''/'' cidr = Some i"
  shows "IPAddress_ctor cidr =
     (case stoi (drop (i + 1) cidr) of
        Inl e \<Rightarrow> Inl e
      | Inr p \<Rightarrow>
          (case ipToUint (take i cidr) of
             Inl e \<Rightarrow> Inl e
           | Inr raw \<Rightarrow>
               (case maskFromPrefix p of
                  Inl e \<Rightarrow> Inl e
                | Inr m \<Rightarrow> Inr \<lparr>addr = raw AND m, prefix = p\<rparr>)))"
  using assms by (simp add: IPAddress_ctor_def split: sum.split)

lemma ipToUint_ok_iff:
  "ipToUint ip = Inr raw \<longleftrightarrow>
     (\<exists>a b c d. sscanf_dotted 4 (c_str ip) = [a, b, c, d] \<and>
        raw = push_bit 24 (word_of_int a) OR push_bit 16 (word_of_int b) OR
              push_bit 8 (word_of_int c) OR word_of_int d)"
  by (auto simp: ipToUint_def split: list.splits)

lemma ipToUint_fail:
  assumes "length (sscanf_dotted 4 (c_str ip)) \<noteq> 4"
  shows "ipToUint ip = Inl (ParseError ip)"
  using assms by (auto simp: ipToUint_def split: list.splits)

lemma ctor_text_plain:
  "IPAddress_ctor (show_nat a @ ''.'' @ show_nat b @ ''.'' @ show_nat c @ ''.'' @ show_nat d) =
   Inr \<lparr>addr = push_bit 24 (word_of_int (scanf_d (int a))) OR push_bit 16 (word_of_int (scanf_d (int b))) OR
                push_bit 8 (word_of_int (scanf_d (int c))) OR word_of_int (scanf_d (int d)),
        prefix = 32\<rparr>"
proof -
  let ?q = "show_nat a @ ''.'' @ show_nat b @ ''.'' @ show_nat c @ ''.'' @ show_nat d"
  have "find_char CHR ''/'' ?q = None"
    by (rule quad_chars_find) (rule quad_chars_dotted)
  from IPAddress_ctor_no_slash [OF this] show ?thesis
    by (simp only: ipToUint_quad sum.case)
qed

lemma ctor_text_slash:
  assumes "INT_MIN \<le> p" and "p \<le> INT_MAX"
  shows "IPAddress_ctor (show_nat a @ ''.'' @ show_nat b @ ''.'' @ show_nat c @ ''.'' @ show_nat d @
                         ''/'' @ show_int p) =
     (case maskFromPrefix p of
        Inl e \<Rightarrow> Inl e
      | Inr m \<Rightarrow>
          Inr \<lparr>addr = (push_bit 24 (word_of_int (scanf_d (int a))) OR push_bit 16 (word_of_int (scanf_d (int b))) OR
                       push_bit 8 (word_of_int (scanf_d (int c))) OR word_of_int (scanf_d (int d))) AND m,
               prefix = p\<rparr>)"
proof -
  let ?q = "show_nat a @ ''.'' @ show_nat b @ ''.'' @ show_nat c @ ''.'' @ show_nat d"
  have eq: "show_nat a @ ''.'' @ show_nat b @ ''.'' @ show_nat c @ ''.'' @ show_nat d @
              ''/'' @ show_int p = ?q @ CHR ''/'' # show_int p"
    by simp
  have f: "find_char CHR ''/'' (?q @ CHR ''/'' # show_int p) = Some (length ?q)"
    by (rule quad_chars_find) (rule quad_chars_dotted)
  have "take (length q) (q @ CHR ''/'' # r) = q"
    and "drop (length q + 1) (q @ CHR ''/'' # r) = r" for q r :: string
    by simp_all
  then have t: "take (length ?q) (?q @ CHR ''/'' # show_int p) = ?q"
    and d: "drop (length ?q + 1) (?q @ CHR ''/'' # show_int p) = show_int p"
    by blast+
  have "IPAddress_ctor (?q @ CHR ''/'' # show_int p) =
     (case maskFromPrefix p of
        Inl e \<Rightarrow> Inl e
      | Inr m \<Rightarrow>
          Inr \<lparr>addr = (push_bit 24 (word_of_int (scanf_d (int a))) OR push_bit 16 (word_of_int (scanf_d (int b))) OR
                       push_bit 8 (word_of_int (scanf_d (int c))) OR word_of_int (scanf_d (int d))) AND m,
               prefix = p\<rparr>)"
    unfolding IPAddress_ctor_slash [OF f] t d stoi_show_int [OF assms] ipToUint_quad
    by (simp only: sum.case)
  then show ?thesis
    unfolding eq .
qed

lemma quad_small:
  assumes "a < 2 ^ 31" and "b < 2 ^ 31" and "c < 2 ^ 31" and "d < 2 ^ 31"
  shows "push_bit 24 (word_of_int (scanf_d (int a))) OR push_bit 16 (word_of_int (scanf_d (int b))) OR
         push_bit 8 (word_of_int (scanf_d (int c))) OR word_of_int (scanf_d (int d)) =
         (push_bit 24 (word_of_int (int a)) OR push_bit 16 (word_of_int (int b)) OR
          push_bit 8 (word_of_int (int c)) OR word_of_int (int d) :: uint32)"
  by (simp only: scanf_d_nat [OF assms(1)] scanf_d_nat [OF assms(2)] scanf_d_nat [OF assms(3)]
      scanf_d_nat [OF assms(4)])









section \<open>What the constructor accepts\<close>

lemma not_parse_error_examples:
  "IPAddress_ctor ''999.1.1.1'' = Inr \<lparr>addr = 0xE7010101, prefix = 32\<rparr>"
  "IPAddress_toString \<lparr>addr = 0xE7010101, prefix = 32\<rparr> = ''231.1.1.1/32''"
  "IPAddress_ctor ''1.1.1.999'' = Inr \<lparr>addr = 0x010103E7, prefix = 32\<rparr>"
  "IPAddress_toString \<lparr>addr = 0x010103E7, prefix = 32\<rparr> = ''1.1.3.231/32''"
  by code_simp+

lemma parse_error_examples:
  "IPAddress_ctor ''10.0.0.0/33'' = Inl InvalidPrefixError"
  "IPAddress_ctor ''10.0.0.0/-1'' = Inl InvalidPrefixError"
  "IPAddress_ctor ''10.0.0'' = Inl (ParseError ''10.0.0'')"
  "IPAddress_ctor ''10.0.0.x/8'' = Inl (ParseError ''10.0.0.x'')"
  by code_simp+

lemma ctor_bad_prefix:
  assumes "find_char CHR ''/'' cidr = Some i" and "stoi (drop (i + 1) cidr) = Inr p"
    and "p < 0 \<or> 32 < p" and "ipToUint (take i cidr) = Inr raw"
  shows "IPAddress_ctor cidr = Inl InvalidPrefixError"
proof -
  from assms(3) have "maskFromPrefix p = Inl InvalidPrefixError"
    by (auto simp: maskFromPrefix_def)
  with assms(2,4) show ?thesis
    unfolding IPAddress_ctor_slash [OF assms(1)] by simp
qed

lemma ctor_good_prefix:
  assumes "find_char CHR ''/'' cidr = Some i" and "stoi (drop (i + 1) cidr) = Inr p"
    and "0 \<le> p" and "p \<le> 32"
  shows "IPAddress_ctor cidr =
     (case ipToUint (take i cidr) of
        Inl e \<Rightarrow> Inl e
      | Inr raw \<Rightarrow> Inr \<lparr>addr = raw AND NOT (mask (nat (32 - p))), prefix = p\<rparr>)"
  using assms(2) maskFromPrefix_eq [OF assms(3,4)]
  by (simp add: IPAddress_ctor_slash [OF assms(1)] split: sum.split)


text \<open>
  C7, as the program has it. The constructor throws the exception of \<^verbatim>\<open>maskFromPrefix\<close>
  (the spec's \<open>InvalidPrefixError\<close>) when the text before the slash reads as four integers
  and the prefix is an \<^verbatim>\<open>int\<close> outside 0..32. It throws the exception of \<^verbatim>\<open>ipToUint\<close>
  (the spec's \<open>ParseError\<close>) when fewer than four integers separated by dots can be read
  from the address text, the prefix being absent or within 0..32. Otherwise, with four
  integers read and the prefix absent or within 0..32, it succeeds; an absent prefix is
  32. The four integers are not checked against 0..255: every text of four decimal
  numbers joined by dots parses, whatever the numbers, and numbers that are \<^verbatim>\<open>int\<close>s
  are shifted and or-ed as they are.
\<close>

theorem IPAddress_ctor_outcomes:
  "(find_char CHR ''/'' cidr = Some i \<and> stoi (drop (i + 1) cidr) = Inr p \<and> (p < 0 \<or> 32 < p) \<and>
    ipToUint (take i cidr) = Inr raw \<longrightarrow>
      IPAddress_ctor cidr = Inl InvalidPrefixError) \<and>
   (find_char CHR ''/'' cidr = None \<and> length (sscanf_dotted 4 (c_str cidr)) \<noteq> 4 \<longrightarrow>
      IPAddress_ctor cidr = Inl (ParseError cidr)) \<and>
   (find_char CHR ''/'' cidr = Some i \<and> stoi (drop (i + 1) cidr) = Inr p \<and> 0 \<le> p \<and> p \<le> 32 \<and>
    length (sscanf_dotted 4 (c_str (take i cidr))) \<noteq> 4 \<longrightarrow>
      IPAddress_ctor cidr = Inl (ParseError (take i cidr))) \<and>
   (find_char CHR ''/'' cidr = None \<and> ipToUint cidr = Inr raw \<longrightarrow>
      IPAddress_ctor cidr = Inr \<lparr>addr = raw, prefix = 32\<rparr>) \<and>
   (find_char CHR ''/'' cidr = Some i \<and> stoi (drop (i + 1) cidr) = Inr p \<and> 0 \<le> p \<and> p \<le> 32 \<and>
    ipToUint (take i cidr) = Inr raw \<longrightarrow>
      IPAddress_ctor cidr = Inr \<lparr>addr = raw AND NOT (mask (nat (32 - p))), prefix = p\<rparr>) \<and>
   (ipToUint ip = Inr raw \<longleftrightarrow>
      (\<exists>a b c d. sscanf_dotted 4 (c_str ip) = [a, b, c, d] \<and>
         raw = push_bit 24 (word_of_int a) OR push_bit 16 (word_of_int b) OR
               push_bit 8 (word_of_int c) OR word_of_int d)) \<and>
   (\<exists>raw. IPAddress_ctor (show_nat a @ ''.'' @ show_nat b @ ''.'' @ show_nat c @ ''.'' @ show_nat d) = Inr \<lparr>addr = raw, prefix = 32\<rparr>) \<and>
   (a < 2 ^ 31 \<and> b < 2 ^ 31 \<and> c < 2 ^ 31 \<and> d < 2 ^ 31 \<longrightarrow>
      IPAddress_ctor (show_nat a @ ''.'' @ show_nat b @ ''.'' @ show_nat c @ ''.'' @ show_nat d) =
        Inr \<lparr>addr = push_bit 24 (word_of_int (int a)) OR push_bit 16 (word_of_int (int b)) OR
                     push_bit 8 (word_of_int (int c)) OR word_of_int (int d), prefix = 32\<rparr>) \<and>
   (0 \<le> p \<and> p \<le> 32 \<longrightarrow>
      (\<exists>raw. IPAddress_ctor (show_nat a @ ''.'' @ show_nat b @ ''.'' @ show_nat c @ ''.'' @ show_nat d @ ''/'' @ show_int p) =
         Inr \<lparr>addr = raw AND NOT (mask (nat (32 - p))), prefix = p\<rparr>)) \<and>
   (0 \<le> p \<and> p \<le> 32 \<and> a < 2 ^ 31 \<and> b < 2 ^ 31 \<and> c < 2 ^ 31 \<and> d < 2 ^ 31 \<longrightarrow>
      IPAddress_ctor (show_nat a @ ''.'' @ show_nat b @ ''.'' @ show_nat c @ ''.'' @ show_nat d @ ''/'' @ show_int p) =
        Inr \<lparr>addr = (push_bit 24 (word_of_int (int a)) OR push_bit 16 (word_of_int (int b)) OR
                     push_bit 8 (word_of_int (int c)) OR word_of_int (int d)) AND NOT (mask (nat (32 - p))), prefix = p\<rparr>) \<and>
   (INT_MIN \<le> p \<and> p \<le> INT_MAX \<and> (p < 0 \<or> 32 < p) \<longrightarrow>
      IPAddress_ctor (show_nat a @ ''.'' @ show_nat b @ ''.'' @ show_nat c @ ''.'' @ show_nat d @ ''/'' @ show_int p) = Inl InvalidPrefixError) \<and>
   IPAddress_ctor ''10.0.0.0/33'' = Inl InvalidPrefixError \<and>
   IPAddress_ctor ''10.0.0'' = Inl (ParseError ''10.0.0'')"
proof (intro conjI impI)
  assume "find_char CHR ''/'' cidr = Some i \<and> stoi (drop (i + 1) cidr) = Inr p \<and> (p < 0 \<or> 32 < p) \<and>
    ipToUint (take i cidr) = Inr raw"
  then show "IPAddress_ctor cidr = Inl InvalidPrefixError"
    using ctor_bad_prefix [of cidr i p raw] by blast
next
  assume h: "find_char CHR ''/'' cidr = None \<and> length (sscanf_dotted 4 (c_str cidr)) \<noteq> 4"
  then have "ipToUint cidr = Inl (ParseError cidr)"
    by (simp add: ipToUint_fail)
  with h show "IPAddress_ctor cidr = Inl (ParseError cidr)"
    by (simp add: IPAddress_ctor_no_slash)
next
  assume h: "find_char CHR ''/'' cidr = Some i \<and> stoi (drop (i + 1) cidr) = Inr p \<and> 0 \<le> p \<and> p \<le> 32 \<and>
    length (sscanf_dotted 4 (c_str (take i cidr))) \<noteq> 4"
  then have "ipToUint (take i cidr) = Inl (ParseError (take i cidr))"
    by (simp add: ipToUint_fail)
  with h show "IPAddress_ctor cidr = Inl (ParseError (take i cidr))"
    using ctor_good_prefix [of cidr i p] by simp
next
  assume "find_char CHR ''/'' cidr = None \<and> ipToUint cidr = Inr raw"
  then show "IPAddress_ctor cidr = Inr \<lparr>addr = raw, prefix = 32\<rparr>"
    by (simp add: IPAddress_ctor_no_slash)
next
  assume h: "find_char CHR ''/'' cidr = Some i \<and> stoi (drop (i + 1) cidr) = Inr p \<and> 0 \<le> p \<and> p \<le> 32 \<and>
    ipToUint (take i cidr) = Inr raw"
  then show "IPAddress_ctor cidr = Inr \<lparr>addr = raw AND NOT (mask (nat (32 - p))), prefix = p\<rparr>"
    using ctor_good_prefix [of cidr i p] by simp
next
  show "ipToUint ip = Inr raw \<longleftrightarrow>
      (\<exists>a b c d. sscanf_dotted 4 (c_str ip) = [a, b, c, d] \<and>
         raw = push_bit 24 (word_of_int a) OR push_bit 16 (word_of_int b) OR
               push_bit 8 (word_of_int c) OR word_of_int d)"
    by (rule ipToUint_ok_iff)
next
  show "\<exists>raw. IPAddress_ctor (show_nat a @ ''.'' @ show_nat b @ ''.'' @ show_nat c @ ''.'' @ show_nat d) = Inr \<lparr>addr = raw, prefix = 32\<rparr>"
    unfolding ctor_text_plain by blast
next
  assume "a < 2 ^ 31 \<and> b < 2 ^ 31 \<and> c < 2 ^ 31 \<and> d < 2 ^ 31"
  then have small: "a < 2 ^ 31" "b < 2 ^ 31" "c < 2 ^ 31" "d < 2 ^ 31"
    by simp_all
  show "IPAddress_ctor (show_nat a @ ''.'' @ show_nat b @ ''.'' @ show_nat c @ ''.'' @ show_nat d) =
        Inr \<lparr>addr = push_bit 24 (word_of_int (int a)) OR push_bit 16 (word_of_int (int b)) OR
                     push_bit 8 (word_of_int (int c)) OR word_of_int (int d), prefix = 32\<rparr>"
    unfolding ctor_text_plain quad_small [OF small] ..
next
  assume p: "0 \<le> p \<and> p \<le> 32"
  then have range: "INT_MIN \<le> p" "p \<le> INT_MAX"
    by (simp_all add: INT_MIN_def INT_MAX_def)
  from p have mk: "maskFromPrefix p = Inr (NOT (mask (nat (32 - p))))"
    by (simp add: maskFromPrefix_eq)
  have "IPAddress_ctor (show_nat a @ ''.'' @ show_nat b @ ''.'' @ show_nat c @ ''.'' @ show_nat d @ ''/'' @ show_int p) =
         Inr \<lparr>addr = (push_bit 24 (word_of_int (scanf_d (int a))) OR
                       push_bit 16 (word_of_int (scanf_d (int b))) OR
                       push_bit 8 (word_of_int (scanf_d (int c))) OR word_of_int (scanf_d (int d)))
                      AND NOT (mask (nat (32 - p))), prefix = p\<rparr>"
    unfolding ctor_text_slash [OF range] mk by (simp only: sum.case)
  then show "\<exists>raw. IPAddress_ctor (show_nat a @ ''.'' @ show_nat b @ ''.'' @ show_nat c @ ''.'' @ show_nat d @ ''/'' @ show_int p) =
         Inr \<lparr>addr = raw AND NOT (mask (nat (32 - p))), prefix = p\<rparr>"
    by blast
next
  assume p: "0 \<le> p \<and> p \<le> 32 \<and> a < 2 ^ 31 \<and> b < 2 ^ 31 \<and> c < 2 ^ 31 \<and> d < 2 ^ 31"
  then have range: "INT_MIN \<le> p" "p \<le> INT_MAX"
    by (simp_all add: INT_MIN_def INT_MAX_def)
  from p have small: "a < 2 ^ 31" "b < 2 ^ 31" "c < 2 ^ 31" "d < 2 ^ 31"
    by simp_all
  from p have mk: "maskFromPrefix p = Inr (NOT (mask (nat (32 - p))))"
    by (simp add: maskFromPrefix_eq)
  show "IPAddress_ctor (show_nat a @ ''.'' @ show_nat b @ ''.'' @ show_nat c @ ''.'' @ show_nat d @ ''/'' @ show_int p) =
        Inr \<lparr>addr = (push_bit 24 (word_of_int (int a)) OR push_bit 16 (word_of_int (int b)) OR
                     push_bit 8 (word_of_int (int c)) OR word_of_int (int d)) AND NOT (mask (nat (32 - p))), prefix = p\<rparr>"
    unfolding ctor_text_slash [OF range] mk quad_small [OF small] by (simp only: sum.case)
next
  assume p: "INT_MIN \<le> p \<and> p \<le> INT_MAX \<and> (p < 0 \<or> 32 < p)"
  then have range: "INT_MIN \<le> p" "p \<le> INT_MAX"
    by simp_all
  from p have mk: "maskFromPrefix p = Inl InvalidPrefixError"
    by (auto simp: maskFromPrefix_def)
  show "IPAddress_ctor (show_nat a @ ''.'' @ show_nat b @ ''.'' @ show_nat c @ ''.'' @ show_nat d @ ''/'' @ show_int p) = Inl InvalidPrefixError"
    unfolding ctor_text_slash [OF range] mk by (simp only: sum.case)
qed (rule parse_error_examples)+

text \<open>
  The text \<^verbatim>\<open>999.1.1.1\<close> is no parse error: \<^verbatim>\<open>sscanf\<close> reads four integers, and 999
  shifted by 24 wraps to \<^verbatim>\<open>0xE7\<close>. Nor is \<^verbatim>\<open>1.1.1.999\<close>, where nothing overflows.
\<close>

theorem octet_range_not_checked:
  "IPAddress_ctor ''999.1.1.1'' = Inr \<lparr>addr = 0xE7010101, prefix = 32\<rparr> \<and>
   IPAddress_ctor ''999.1.1.1'' \<noteq> Inl (ParseError ''999.1.1.1'') \<and>
   IPAddress_toString \<lparr>addr = 0xE7010101, prefix = 32\<rparr> = ''231.1.1.1/32'' \<and>
   IPAddress_ctor ''1.1.1.999'' = Inr \<lparr>addr = 0x010103E7, prefix = 32\<rparr> \<and>
   IPAddress_toString \<lparr>addr = 0x010103E7, prefix = 32\<rparr> = ''1.1.3.231/32''"
  using not_parse_error_examples by simp

theorem IPAddress_ctor_outcomes_witness:
  "find_char CHR ''/'' ''10.0.0.0/33'' = Some 8 \<and>
   stoi (drop (8 + 1) ''10.0.0.0/33'') = Inr 33 \<and>
   ipToUint (take 8 ''10.0.0.0/33'') = Inr 0x0A000000 \<and>
   IPAddress_ctor ''10.0.0.0/33'' = Inl InvalidPrefixError \<and>
   find_char CHR ''/'' ''10.0.0'' = None \<and>
   length (sscanf_dotted 4 (c_str ''10.0.0'')) = 3 \<and>
   IPAddress_ctor ''10.0.0'' = Inl (ParseError ''10.0.0'') \<and>
   find_char CHR ''/'' ''10.0.0.5'' = None \<and>
   ipToUint ''10.0.0.5'' = Inr 0x0A000005 \<and>
   IPAddress_ctor ''10.0.0.5'' = Inr \<lparr>addr = 0x0A000005, prefix = 32\<rparr> \<and>
   (999 :: nat) < 2 ^ 31 \<and> (1 :: nat) < 2 ^ 31 \<and>
   IPAddress_ctor (show_nat 999 @ ''.'' @ show_nat 1 @ ''.'' @ show_nat 1 @ ''.'' @ show_nat 1) =
     Inr \<lparr>addr = push_bit 24 (word_of_int (int 999)) OR push_bit 16 (word_of_int (int 1)) OR
                   push_bit 8 (word_of_int (int 1)) OR word_of_int (int 1), prefix = 32\<rparr> \<and>
   INT_MIN \<le> 40 \<and> 40 \<le> INT_MAX \<and>
   IPAddress_ctor (show_nat 10 @ ''.'' @ show_nat 0 @ ''.'' @ show_nat 0 @ ''.'' @ show_nat 0 @
                   ''/'' @ show_int 40) = Inl InvalidPrefixError"
proof -
  have f1: "find_char CHR ''/'' ''10.0.0.0/33'' = Some 8"
    and s1: "stoi (drop (8 + 1) ''10.0.0.0/33'') = Inr 33"
    and u1: "ipToUint (take 8 ''10.0.0.0/33'') = Inr 0x0A000000"
    and f2: "find_char CHR ''/'' ''10.0.0'' = None"
    and l2: "length (sscanf_dotted 4 (c_str ''10.0.0'')) = 3"
    and f3: "find_char CHR ''/'' ''10.0.0.5'' = None"
    and u3: "ipToUint ''10.0.0.5'' = Inr 0x0A000005"
    by code_simp+
  have r: "INT_MIN \<le> 40" "40 \<le> INT_MAX"
    by (simp_all add: INT_MIN_def INT_MAX_def)
  have a: "IPAddress_ctor ''10.0.0.0/33'' = Inl InvalidPrefixError"
    using IPAddress_ctor_outcomes [where cidr = "''10.0.0.0/33''" and i = 8 and p = 33
        and raw = "0x0A000000"] f1 s1 u1
    by simp
  have b: "IPAddress_ctor ''10.0.0'' = Inl (ParseError ''10.0.0'')"
    using IPAddress_ctor_outcomes [where cidr = "''10.0.0''"] f2 l2
    by simp
  have c: "IPAddress_ctor ''10.0.0.5'' = Inr \<lparr>addr = 0x0A000005, prefix = 32\<rparr>"
    using IPAddress_ctor_outcomes [where cidr = "''10.0.0.5''" and raw = "0x0A000005"] f3 u3
    by simp
  have d: "IPAddress_ctor (show_nat 10 @ ''.'' @ show_nat 0 @ ''.'' @ show_nat 0 @ ''.'' @ show_nat 0 @
                   ''/'' @ show_int 40) = Inl InvalidPrefixError"
    using IPAddress_ctor_outcomes [where p = 40 and a = 10 and b = 0 and c = 0 and d = 0] r
    by simp
  have sm: "(999 :: nat) < 2 ^ 31" "(1 :: nat) < 2 ^ 31"
    by simp_all
  have e: "IPAddress_ctor (show_nat 999 @ ''.'' @ show_nat 1 @ ''.'' @ show_nat 1 @ ''.'' @ show_nat 1) =
     Inr \<lparr>addr = push_bit 24 (word_of_int (int 999)) OR push_bit 16 (word_of_int (int 1)) OR
                   push_bit 8 (word_of_int (int 1)) OR word_of_int (int 1), prefix = 32\<rparr>"
    using IPAddress_ctor_outcomes [where a = 999 and b = 1 and c = 1 and d = 1] sm
    by blast
  from f1 s1 u1 a f2 l2 b f3 u3 c sm e r d show ?thesis
    by blast
qed

section \<open>Printing the table\<close>



















end
